theory Spec2Isabelle
  imports Main "HOL-Library.AList" "HOL-Library.Sublist"
begin

section \<open>The bridge client (BridgeClient) as a state machine\<close>

text \<open>
  The client of the bridge protocol is an event-driven object: its owner calls
  \<open>connect\<close>, \<open>close\<close>, \<open>request\<close>, \<open>sendEvent\<close> and \<open>sendInvokeResponse\<close>, and the
  socket and the timers of the event loop call its handlers back. Every method and every
  handler is embedded as a function from the object's state to the new state; what the
  method does to the outside (a write to the socket, a timer armed or cleared, a promise
  settled, a callback of the options invoked) is appended to a log kept in the state.

  Strings are the UTF-8 text of the JavaScript strings (the socket carries UTF-8), frames
  are JSON values. A chunk that the socket delivers is whole text: it ends between two
  characters. The events of a history are those of the socket that the latest \<open>connect\<close>
  opened, and the callbacks of the options return without an exception.
\<close>

subsection \<open>JavaScript values: JSON, coercions, string helpers\<close>

text \<open>
  A JSON value. An object is the list of its members in source order. Numbers are
  integers here, as a double holds them exactly and prints them in decimal notation:
  number literals with a fraction or an exponent are outside the embedding, and no frame
  of the protocol carries a number.
\<close>

datatype json =
    JNull
  | JBool bool
  | JNum int
  | JStr string
  | JArr "json list"
  | JObj "(string \<times> json) list"

text \<open>Exceptions and rejection reasons: \<open>new Error(message)\<close>, and the two built-in
  errors the code can raise.\<close>

datatype js_error = Error string | TypeError | SyntaxError

text \<open>\<open>xs.join(sep)\<close> on strings.\<close>

fun join :: "string \<Rightarrow> string list \<Rightarrow> string" where
  "join sep [] = []"
| "join sep [x] = x"
| "join sep (x # y # ys) = x @ sep @ join sep (y # ys)"

definition digit_char :: "nat \<Rightarrow> char" where
  "digit_char d = char_of (48 + d)"

fun digits :: "nat \<Rightarrow> string" where
  "digits n = (if n < 10 then [digit_char n] else digits (n div 10) @ [digit_char (n mod 10)])"

declare digits.simps [simp del]

definition show_int :: "int \<Rightarrow> string" where
  "show_int i = (if i < 0 then CHR ''-'' # digits (nat (- i)) else digits (nat i))"

text \<open>
  \<open>String(v)\<close> on a JSON value, \<open>None\<close> where it throws a TypeError. A string is itself,
  \<open>null\<close> is \<open>"null"\<close>, an array is its elements joined by commas (a \<open>null\<close> element gives
  the empty string). An object is \<open>"[object Object]"\<close>, by the \<open>toString\<close> it inherits;
  an object with a member named \<open>toString\<close> has lost that method (the member is a JSON
  value, which cannot be called) and what \<open>valueOf\<close> returns is no primitive, so the
  conversion throws.
\<close>

fun ToString :: "json \<Rightarrow> string option" where
  "ToString JNull = Some ''null''"
| "ToString (JBool b) = Some (if b then ''true'' else ''false'')"
| "ToString (JNum i) = Some (show_int i)"
| "ToString (JStr s) = Some s"
| "ToString (JArr xs) =
     map_option (join '','')
       (those (map (\<lambda>x. if x = JNull then Some [] else ToString x) xs))"
| "ToString (JObj kvs) =
     (if ''toString'' \<in> fst ` set kvs then None else Some ''[object Object]'')"

text \<open>Truthiness of a value that may be \<open>undefined\<close> (\<open>None\<close>).\<close>

fun truthy :: "json option \<Rightarrow> bool" where
  "truthy None = False"
| "truthy (Some JNull) = False"
| "truthy (Some (JBool b)) = b"
| "truthy (Some (JNum i)) = (i \<noteq> 0)"
| "truthy (Some (JStr s)) = (s \<noteq> [])"
| "truthy (Some (JArr xs)) = True"
| "truthy (Some (JObj kvs)) = True"

text \<open>
  \<open>v.key\<close> on a value that is not \<open>null\<close>: a member of an object (the last one with that
  key, as \<open>JSON.parse\<close> keeps for a repeated key), \<open>undefined\<close> on anything else. The keys
  the client reads (\<open>type\<close>, \<open>token\<close>, \<open>code\<close>, \<open>message\<close>, \<open>id\<close>, \<open>ok\<close>, \<open>error\<close>,
  \<open>payloadJSON\<close>) are on no prototype.
\<close>

fun field :: "json \<Rightarrow> string \<Rightarrow> json option" where
  "field (JObj kvs) k = map_of (rev kvs) k"
| "field v k = None"

text \<open>\<open>x ?? d\<close>: \<open>d\<close> when \<open>x\<close> is \<open>undefined\<close> or \<open>null\<close>.\<close>

fun nullish :: "json option \<Rightarrow> json \<Rightarrow> json" where
  "nullish None d = d"
| "nullish (Some JNull) d = d"
| "nullish (Some v) d = v"

text \<open>
  \<open>s.trim()\<close>. The white space and line terminators of ECMAScript, as UTF-8: the six
  ASCII ones, U+00A0, U+1680, U+2000 to U+200A, U+2028, U+2029, U+202F, U+205F, U+3000
  and U+FEFF.
\<close>

definition js_whitespace :: "string list" where
  "js_whitespace =
     [[CHR 0x09], [CHR 0x0A], [CHR 0x0B], [CHR 0x0C], [CHR 0x0D], [CHR 0x20],
      [CHR 0xC2, CHR 0xA0],
      [CHR 0xE1, CHR 0x9A, CHR 0x80],
      [CHR 0xE2, CHR 0x80, CHR 0x80], [CHR 0xE2, CHR 0x80, CHR 0x81],
      [CHR 0xE2, CHR 0x80, CHR 0x82], [CHR 0xE2, CHR 0x80, CHR 0x83],
      [CHR 0xE2, CHR 0x80, CHR 0x84], [CHR 0xE2, CHR 0x80, CHR 0x85],
      [CHR 0xE2, CHR 0x80, CHR 0x86], [CHR 0xE2, CHR 0x80, CHR 0x87],
      [CHR 0xE2, CHR 0x80, CHR 0x88], [CHR 0xE2, CHR 0x80, CHR 0x89],
      [CHR 0xE2, CHR 0x80, CHR 0x8A],
      [CHR 0xE2, CHR 0x80, CHR 0xA8], [CHR 0xE2, CHR 0x80, CHR 0xA9],
      [CHR 0xE2, CHR 0x80, CHR 0xAF],
      [CHR 0xE2, CHR 0x81, CHR 0x9F],
      [CHR 0xE3, CHR 0x80, CHR 0x80],
      [CHR 0xEF, CHR 0xBB, CHR 0xBF]]"

function trimStart :: "string \<Rightarrow> string" where
  "trimStart s =
     (case find (\<lambda>w. prefix w s) js_whitespace of
        None \<Rightarrow> s
      | Some w \<Rightarrow> trimStart (drop (length w) s))"
  by pat_completeness auto
termination
proof (relation "measure length")
  fix s w
  assume "find (\<lambda>w. prefix w s) js_whitespace = Some w"
  then have "w \<in> set js_whitespace" and "prefix w s"
    by (auto simp: find_Some_iff)
  then have "w \<noteq> []" and "length w \<le> length s"
    by (auto simp: js_whitespace_def prefix_length_le)
  then show "(drop (length w) s, s) \<in> measure length"
    by (cases w) auto
qed simp

declare trimStart.simps [simp del]

function trimEnd :: "string \<Rightarrow> string" where
  "trimEnd s =
     (case find (\<lambda>w. suffix w s) js_whitespace of
        None \<Rightarrow> s
      | Some w \<Rightarrow> trimEnd (take (length s - length w) s))"
  by pat_completeness auto
termination
proof (relation "measure length")
  fix s w
  assume "find (\<lambda>w. suffix w s) js_whitespace = Some w"
  then have "w \<in> set js_whitespace" and "suffix w s"
    by (auto simp: find_Some_iff)
  then have "w \<noteq> []" and "length w \<le> length s"
    by (auto simp: js_whitespace_def suffix_length_le)
  then show "(take (length s - length w) s, s) \<in> measure length"
    by (cases w) auto
qed simp

declare trimEnd.simps [simp del]

definition trim :: "string \<Rightarrow> string" where
  "trim s = trimEnd (trimStart s)"


subsection \<open>JSON.stringify and JSON.parse\<close>

text \<open>
  \<open>JSON.stringify\<close> of a JSON value, without indentation: no white space between tokens;
  in a string the quote, the backslash and the control characters are escaped (five of them
  by a letter, the others as \<open>\u00xx\<close>), every other character is written as it is. (A
  surrogate with no partner, which \<open>JSON.stringify\<close> writes as an escape, is no text in
  UTF-8.)
\<close>

definition hex_char :: "nat \<Rightarrow> char" where
  "hex_char d = (if d < 10 then char_of (48 + d) else char_of (87 + d))"

definition escape_char :: "char \<Rightarrow> string" where
  "escape_char c =
     (if c = CHR 0x22 then [CHR 0x5C, CHR 0x22]
      else if c = CHR 0x5C then [CHR 0x5C, CHR 0x5C]
      else if c = CHR 0x08 then [CHR 0x5C, CHR ''b'']
      else if c = CHR 0x0C then [CHR 0x5C, CHR ''f'']
      else if c = CHR 0x0A then [CHR 0x5C, CHR ''n'']
      else if c = CHR 0x0D then [CHR 0x5C, CHR ''r'']
      else if c = CHR 0x09 then [CHR 0x5C, CHR ''t'']
      else if (of_char c :: nat) < 0x20 then
        [CHR 0x5C, CHR ''u'', CHR ''0'', CHR ''0'',
         hex_char (of_char c div 16), hex_char (of_char c mod 16)]
      else [c])"

definition quote :: "string \<Rightarrow> string" where
  "quote s = CHR 0x22 # concat (map escape_char s) @ [CHR 0x22]"

fun JSON_stringify :: "json \<Rightarrow> string" where
  "JSON_stringify JNull = ''null''"
| "JSON_stringify (JBool b) = (if b then ''true'' else ''false'')"
| "JSON_stringify (JNum i) = show_int i"
| "JSON_stringify (JStr s) = quote s"
| "JSON_stringify (JArr xs) = ''['' @ join '','' (map JSON_stringify xs) @ '']''"
| "JSON_stringify (JObj kvs) =
     ''{'' @ join '','' (map (\<lambda>kv. quote (fst kv) @ '':'' @ JSON_stringify (snd kv)) kvs) @ ''}''"

text \<open>
  \<open>JSON.parse\<close>: the JSON grammar (ECMA-404), by recursive descent. A parser takes the
  text and gives the value read and the text after it, or \<open>None\<close> where \<open>JSON.parse\<close>
  throws a SyntaxError. The recursion is on a counter that \<open>JSON_parse\<close> starts at twice
  the length of the text plus two: a call one level down has either read a character or
  is about to.
\<close>

definition is_ws :: "char \<Rightarrow> bool" where
  "is_ws c = (c = CHR 0x20 \<or> c = CHR 0x09 \<or> c = CHR 0x0A \<or> c = CHR 0x0D)"

definition skip_ws :: "string \<Rightarrow> string" where
  "skip_ws s = dropWhile is_ws s"

definition is_digit :: "char \<Rightarrow> bool" where
  "is_digit c = (48 \<le> (of_char c :: nat) \<and> (of_char c :: nat) \<le> 57)"

definition digit_val :: "char \<Rightarrow> nat" where
  "digit_val c = of_char c - 48"

definition nat_of_digits :: "string \<Rightarrow> nat" where
  "nat_of_digits ds = foldl (\<lambda>a c. 10 * a + digit_val c) 0 ds"

text \<open>
  A number: an optional minus, then \<open>0\<close> or a digit from 1 to 9 followed by digits. A
  fraction or an exponent after it is a number this embedding does not have; it is read
  as a failure.
\<close>

definition parse_number :: "string \<Rightarrow> (int \<times> string) option" where
  "parse_number s =
     (let neg = (s \<noteq> [] \<and> hd s = CHR ''-'');
          t = (if neg then tl s else s);
          ds = takeWhile is_digit t;
          r = dropWhile is_digit t
      in if ds = [] then None
         else if hd ds = CHR ''0'' \<and> 1 < length ds then None
         else if r \<noteq> [] \<and> (hd r = CHR ''.'' \<or> hd r = CHR ''e'' \<or> hd r = CHR ''E'') then None
         else Some (if neg then - int (nat_of_digits ds) else int (nat_of_digits ds), r))"

definition hex_val :: "char \<Rightarrow> nat option" where
  "hex_val c =
     (let n = (of_char c :: nat)
      in if 48 \<le> n \<and> n \<le> 57 then Some (n - 48)
         else if 97 \<le> n \<and> n \<le> 102 then Some (n - 87)
         else if 65 \<le> n \<and> n \<le> 70 then Some (n - 55)
         else None)"

fun parse_hex4 :: "string \<Rightarrow> nat option" where
  "parse_hex4 (a # b # c # d # r) =
     (case (hex_val a, hex_val b, hex_val c, hex_val d) of
        (Some x, Some y, Some z, Some w) \<Rightarrow> Some (((x * 16 + y) * 16 + z) * 16 + w)
      | _ \<Rightarrow> None)"
| "parse_hex4 s = None"

text \<open>A code point as UTF-8 (a lone surrogate in the same three-byte form).\<close>

definition utf8_encode :: "nat \<Rightarrow> string" where
  "utf8_encode cp =
     (if cp < 0x80 then [char_of cp]
      else if cp < 0x800 then [char_of (0xC0 + cp div 0x40), char_of (0x80 + cp mod 0x40)]
      else if cp < 0x10000 then
        [char_of (0xE0 + cp div 0x1000), char_of (0x80 + (cp div 0x40) mod 0x40),
         char_of (0x80 + cp mod 0x40)]
      else
        [char_of (0xF0 + cp div 0x40000), char_of (0x80 + (cp div 0x1000) mod 0x40),
         char_of (0x80 + (cp div 0x40) mod 0x40), char_of (0x80 + cp mod 0x40)])"

text \<open>The character a one-letter escape stands for.\<close>

definition unescape :: "char \<Rightarrow> char option" where
  "unescape e =
     (if e = CHR 0x22 then Some (CHR 0x22)
      else if e = CHR 0x5C then Some (CHR 0x5C)
      else if e = CHR ''/'' then Some (CHR ''/'')
      else if e = CHR ''b'' then Some (CHR 0x08)
      else if e = CHR ''f'' then Some (CHR 0x0C)
      else if e = CHR ''n'' then Some (CHR 0x0A)
      else if e = CHR ''r'' then Some (CHR 0x0D)
      else if e = CHR ''t'' then Some (CHR 0x09)
      else None)"

text \<open>
  After the escape of a high surrogate \<open>u\<close>: the low surrogate of the escape that
  follows, if one does. The two are one code point.
\<close>

definition low_surrogate :: "nat \<Rightarrow> string \<Rightarrow> nat option" where
  "low_surrogate u r =
     (if 0xD800 \<le> u \<and> u < 0xDC00 \<and> take 2 r = [CHR 0x5C, CHR ''u''] then
        (case parse_hex4 (drop 2 r) of
           None \<Rightarrow> None
         | Some v \<Rightarrow> if 0xDC00 \<le> v \<and> v < 0xE000 then Some v else None)
      else None)"

text \<open>The characters of a string literal after its opening quote, up to the closing one.\<close>

fun parse_chars :: "string \<Rightarrow> (string \<times> string) option" where
  "parse_chars [] = None"
| "parse_chars (c # cs) =
     (if c = CHR 0x22 then Some ([], cs)
      else if c = CHR 0x5C then
        (case cs of
           [] \<Rightarrow> None
         | e # es \<Rightarrow>
             if e = CHR ''u'' then
               (case parse_hex4 es of
                  None \<Rightarrow> None
                | Some u \<Rightarrow>
                    (case low_surrogate u (drop 4 es) of
                       Some v \<Rightarrow>
                         map_option
                           (apfst ((@) (utf8_encode (0x10000 + (u - 0xD800) * 0x400 + (v - 0xDC00)))))
                           (parse_chars (drop 10 es))
                     | None \<Rightarrow>
                         map_option (apfst ((@) (utf8_encode u))) (parse_chars (drop 4 es))))
             else
               (case unescape e of
                  None \<Rightarrow> None
                | Some d \<Rightarrow> map_option (apfst ((#) d)) (parse_chars es)))
      else if (of_char c :: nat) < 0x20 then None
      else map_option (apfst ((#) c)) (parse_chars cs))"

fun parse_value :: "nat \<Rightarrow> string \<Rightarrow> (json \<times> string) option"
  and parse_elements :: "nat \<Rightarrow> string \<Rightarrow> (json list \<times> string) option"
  and parse_members :: "nat \<Rightarrow> string \<Rightarrow> ((string \<times> json) list \<times> string) option"
where
  "parse_value 0 s = None"
| "parse_value (Suc n) s =
     (case skip_ws s of
        [] \<Rightarrow> None
      | c # cs \<Rightarrow>
          if c = CHR ''{'' then
            (case skip_ws cs of
               [] \<Rightarrow> None
             | d # ds \<Rightarrow>
                 if d = CHR ''}'' then Some (JObj [], ds)
                 else map_option (apfst JObj) (parse_members n cs))
          else if c = CHR ''['' then
            (case skip_ws cs of
               [] \<Rightarrow> None
             | d # ds \<Rightarrow>
                 if d = CHR '']'' then Some (JArr [], ds)
                 else map_option (apfst JArr) (parse_elements n cs))
          else if c = CHR 0x22 then map_option (apfst JStr) (parse_chars cs)
          else if take 4 (c # cs) = ''true'' then Some (JBool True, drop 3 cs)
          else if take 5 (c # cs) = ''false'' then Some (JBool False, drop 4 cs)
          else if take 4 (c # cs) = ''null'' then Some (JNull, drop 3 cs)
          else map_option (apfst JNum) (parse_number (c # cs)))"
| "parse_elements 0 s = None"
| "parse_elements (Suc n) s =
     (case parse_value n s of
        None \<Rightarrow> None
      | Some (v, r) \<Rightarrow>
          (case skip_ws r of
             [] \<Rightarrow> None
           | c # cs \<Rightarrow>
               if c = CHR '','' then map_option (apfst ((#) v)) (parse_elements n cs)
               else if c = CHR '']'' then Some ([v], cs)
               else None))"
| "parse_members 0 s = None"
| "parse_members (Suc n) s =
     (case skip_ws s of
        [] \<Rightarrow> None
      | c # cs \<Rightarrow>
          if c \<noteq> CHR 0x22 then None
          else
            (case parse_chars cs of
               None \<Rightarrow> None
             | Some (k, r) \<Rightarrow>
                 (case skip_ws r of
                    [] \<Rightarrow> None
                  | d # ds \<Rightarrow>
                      if d \<noteq> CHR '':'' then None
                      else
                        (case parse_value n ds of
                           None \<Rightarrow> None
                         | Some (v, r') \<Rightarrow>
                             (case skip_ws r' of
                                [] \<Rightarrow> None
                              | e # es \<Rightarrow>
                                  if e = CHR '','' then
                                    map_option (apfst ((#) (k, v))) (parse_members n es)
                                  else if e = CHR ''}'' then Some ([(k, v)], es)
                                  else None)))))"

definition JSON_parse :: "string \<Rightarrow> json option" where
  "JSON_parse s =
     (case parse_value (2 * length s + 2) s of
        None \<Rightarrow> None
      | Some (v, r) \<Rightarrow> if skip_ws r = [] then Some v else None)"


subsection \<open>The options, the state and the effects\<close>

text \<open>
  \<open>BridgeClientOptions\<close>. An optional field is an \<open>option\<close>; \<open>tls\<close> is read for its
  truth only, so the missing flag is \<open>False\<close>; of a callback the state keeps whether one
  was given, and a call of it is an effect.
\<close>

record BridgeClientOptions =
  host :: string
  port :: nat
  tls :: bool
  tlsFingerprint :: "string option"
  nodeId :: string
  token :: "string option"
  displayName :: "string option"
  platform :: "string option"
  version :: "string option"
  deviceFamily :: "string option"
  modelIdentifier :: "string option"
  caps :: "string list option"
  commands :: "string list option"
  permissions :: "(string \<times> bool) list option"
  onInvoke :: bool
  onEvent :: bool
  onPairToken :: bool
  onAuthReset :: bool
  onConnected :: bool
  onDisconnected :: bool

text \<open>The peer certificate, of which the client reads \<open>fingerprint256\<close> only.\<close>

record PeerCertificate =
  fingerprint256 :: "string option"

datatype Socket = NetSocket | TLSSocket

text \<open>
  \<open>PendingRpc\<close>: \<open>resolve\<close> and \<open>reject\<close> settle the promise that \<open>request\<close> created,
  which \<open>call\<close> numbers; \<open>timer\<close> is the handle \<open>setTimeout\<close> gave.
\<close>

record PendingRpc =
  call :: nat
  timer :: "nat option"

text \<open>An armed timer of the event loop, with what its callback closes over.\<close>

record Timeout =
  t_id :: string
  t_method :: string
  t_call :: nat
  t_ms :: nat

text \<open>What a method or handler does to the outside, in the order it does it.\<close>

datatype effect =
    NetConnect string nat
  | TlsConnect string nat bool
  | SetNoDelay bool
  | SocketWrite string
  | SocketDestroy "js_error option"
  | HelloResolve
  | HelloReject js_error
  | RpcResolve nat json
  | RpcReject nat js_error
  | OnInvoke json
  | OnEvent json
  | OnPairToken string
  | OnAuthReset
  | OnConnected json
  | OnDisconnected "js_error option"

text \<open>
  The fields of the class, then what the environment holds for it: whether the
  \<open>secureConnect\<close> listener is on the socket, the armed timers, the next handle for a
  promise or a timer, and the log of effects. \<open>helloResolve\<close> and \<open>helloReject\<close> are
  closures or \<open>null\<close>; the state keeps whether they are set (they settle the promise of the
  latest \<open>connect\<close>). \<open>pendingRpc\<close> is a \<open>Map\<close>: an association list in insertion order.
\<close>

record BridgeClient =
  opts :: BridgeClientOptions
  socket :: "Socket option"
  buffer :: string
  pendingRpc :: "(string \<times> PendingRpc) list"
  connected :: bool
  helloResolve :: bool
  helloReject :: bool
  secureConnectListener :: bool
  timers :: "(nat \<times> Timeout) list"
  handles :: nat
  effects :: "effect list"

definition new_BridgeClient :: "BridgeClientOptions \<Rightarrow> BridgeClient" where
  "new_BridgeClient cfg =
     \<lparr>opts = cfg, socket = None, buffer = [], pendingRpc = [], connected = False,
      helloResolve = False, helloReject = False, secureConnectListener = False,
      timers = [], handles = 0, effects = []\<rparr>"

definition emit :: "effect list \<Rightarrow> BridgeClient \<Rightarrow> BridgeClient" where
  "emit es s = s\<lparr>effects := effects s @ es\<rparr>"

text \<open>The texts written to the socket, in order.\<close>

fun written :: "effect list \<Rightarrow> string list" where
  "written [] = []"
| "written (SocketWrite l # es) = l # written es"
| "written (e # es) = written es"

subsection \<open>Fingerprints\<close>

definition is_hex :: "char \<Rightarrow> bool" where
  "is_hex c =
     (let n = (of_char c :: nat)
      in (48 \<le> n \<and> n \<le> 57) \<or> (97 \<le> n \<and> n \<le> 102) \<or> (65 \<le> n \<and> n \<le> 70))"

text \<open>\<open>toLowerCase\<close> on text that holds ASCII only, as what the filter leaves does.\<close>

definition toLowerCase :: "string \<Rightarrow> string" where
  "toLowerCase s =
     map (\<lambda>c. if 65 \<le> (of_char c :: nat) \<and> (of_char c :: nat) \<le> 90
               then char_of ((of_char c :: nat) + 32) else c) s"

definition normalizeFingerprint :: "string \<Rightarrow> string" where
  "normalizeFingerprint input = toLowerCase (filter is_hex input)"

definition extractFingerprint :: "PeerCertificate \<Rightarrow> string option" where
  "extractFingerprint raw =
     (case fingerprint256 raw of
        None \<Rightarrow> None
      | Some v \<Rightarrow> if v = [] then None else Some (normalizeFingerprint v))"

subsection \<open>Sending\<close>

text \<open>A frame as \<open>send\<close> writes it: its JSON text and a line feed.\<close>

definition wire :: "json \<Rightarrow> string" where
  "wire frame = JSON_stringify frame @ [CHR 0x0A]"

definition send :: "json \<Rightarrow> BridgeClient \<Rightarrow> BridgeClient" where
  "send frame s =
     (case socket s of
        None \<Rightarrow> s
      | Some sock \<Rightarrow> emit [SocketWrite (JSON_stringify frame @ [CHR 0x0A])] s)"

text \<open>
  An object literal some of whose properties may be \<open>undefined\<close>. The client only passes
  it to \<open>JSON.stringify\<close>, which leaves those properties out.
\<close>

definition object :: "(string \<times> json option) list \<Rightarrow> json" where
  "object ms = JObj (List.map_filter (\<lambda>kv. map_option (Pair (fst kv)) (snd kv)) ms)"

definition identity_fields :: "BridgeClientOptions \<Rightarrow> (string \<times> json option) list" where
  "identity_fields cfg =
     [(''displayName'', map_option JStr (displayName cfg)),
      (''platform'', map_option JStr (platform cfg)),
      (''version'', map_option JStr (version cfg)),
      (''deviceFamily'', map_option JStr (deviceFamily cfg)),
      (''modelIdentifier'', map_option JStr (modelIdentifier cfg)),
      (''caps'', map_option (\<lambda>xs. JArr (map JStr xs)) (caps cfg)),
      (''commands'', map_option (\<lambda>xs. JArr (map JStr xs)) (commands cfg)),
      (''permissions'',
         map_option (\<lambda>ps. JObj (map (\<lambda>kb. (fst kb, JBool (snd kb))) ps)) (permissions cfg))]"

definition hello_frame :: "BridgeClientOptions \<Rightarrow> json" where
  "hello_frame cfg =
     object ([(''type'', Some (JStr ''hello'')),
              (''nodeId'', Some (JStr (nodeId cfg))),
              (''token'', map_option JStr (token cfg))] @ identity_fields cfg)"

definition pair_request_frame :: "BridgeClientOptions \<Rightarrow> json" where
  "pair_request_frame cfg =
     object ([(''type'', Some (JStr ''pair-request'')),
              (''nodeId'', Some (JStr (nodeId cfg)))] @ identity_fields cfg)"

definition sendHello :: "BridgeClient \<Rightarrow> BridgeClient" where
  "sendHello s = send (hello_frame (opts s)) s"

definition sendPairRequest :: "BridgeClient \<Rightarrow> BridgeClient" where
  "sendPairRequest s = send (pair_request_frame (opts s)) s"

definition sendEvent :: "string \<Rightarrow> json option \<Rightarrow> BridgeClient \<Rightarrow> BridgeClient" where
  "sendEvent event payload s =
     send (JObj [(''type'', JStr ''event''),
                 (''event'', JStr event),
                 (''payloadJSON'',
                    (case payload of
                       None \<Rightarrow> JNull
                     | Some p \<Rightarrow> if truthy (Some p) then JStr (JSON_stringify p) else JNull))]) s"

definition sendInvokeResponse :: "json \<Rightarrow> BridgeClient \<Rightarrow> BridgeClient" where
  "sendInvokeResponse frame s = send frame s"

subsection \<open>Timers and pending calls\<close>

definition setTimeout :: "Timeout \<Rightarrow> BridgeClient \<Rightarrow> BridgeClient" where
  "setTimeout c s =
     s\<lparr>timers := AList.update (handles s) c (timers s), handles := Suc (handles s)\<rparr>"

definition clearTimeout :: "nat \<Rightarrow> BridgeClient \<Rightarrow> BridgeClient" where
  "clearTimeout t s = s\<lparr>timers := AList.delete t (timers s)\<rparr>"

text \<open>
  The body of \<open>pendingRpc.forEach\<close> in \<open>close\<close> and \<open>handleDisconnect\<close>: clear the timer,
  reject the call.
\<close>

definition reject_pending :: "js_error \<Rightarrow> PendingRpc \<Rightarrow> BridgeClient \<Rightarrow> BridgeClient" where
  "reject_pending e pending s =
     emit [RpcReject (call pending) e]
       (case timer pending of None \<Rightarrow> s | Some t \<Rightarrow> clearTimeout t s)"

definition reject_all :: "js_error \<Rightarrow> BridgeClient \<Rightarrow> BridgeClient" where
  "reject_all e s = fold (\<lambda>kv. reject_pending e (snd kv)) (pendingRpc s) s"

text \<open>The armed timers once those of the entries \<open>ps\<close> have been cleared.\<close>

definition clear_timers ::
  "(string \<times> PendingRpc) list \<Rightarrow> (nat \<times> Timeout) list \<Rightarrow> (nat \<times> Timeout) list" where
  "clear_timers ps ts =
     fold (\<lambda>kv ts. case timer (snd kv) of None \<Rightarrow> ts | Some t \<Rightarrow> AList.delete t ts) ps ts"

text \<open>
  \<open>request\<close>, up to its \<open>await\<close>; \<open>req_frame\<close> is the frame it builds. \<open>rid\<close> is the \<open>id\<close> that \<open>crypto.randomUUID()\<close> returned. The
  promise and the timer get the next handle.
\<close>

definition req_frame :: "string \<Rightarrow> string \<Rightarrow> json \<Rightarrow> json" where
  "req_frame rid method params =
     JObj [(''type'', JStr ''req''),
           (''id'', JStr rid),
           (''method'', JStr method),
           (''paramsJSON'', if truthy (Some params) then JStr (JSON_stringify params) else JNull)]"

definition request :: "string \<Rightarrow> string \<Rightarrow> json \<Rightarrow> nat \<Rightarrow> BridgeClient \<Rightarrow> BridgeClient" where
  "request rid method params timeoutMs s =
     (let frame = req_frame rid method params;
          h = handles s;
          s1 = setTimeout \<lparr>t_id = rid, t_method = method, t_call = h, t_ms = timeoutMs\<rparr> s;
          s2 = s1\<lparr>pendingRpc := AList.update rid \<lparr>call = h, timer = Some h\<rparr> (pendingRpc s1)\<rparr>
      in send frame s2)"

text \<open>The callback of the timer that \<open>request\<close> arms, run by the event loop when the
  timer is still armed.\<close>

definition on_timeout :: "nat \<Rightarrow> BridgeClient \<Rightarrow> BridgeClient" where
  "on_timeout t s =
     (case map_of (timers s) t of
        None \<Rightarrow> s
      | Some c \<Rightarrow>
          (let s1 = s\<lparr>timers := AList.delete t (timers s)\<rparr>;
               s2 = s1\<lparr>pendingRpc := AList.delete (t_id c) (pendingRpc s1)\<rparr>
           in emit [RpcReject (t_call c)
                      (Error (''bridge request timeout ('' @ t_method c @ '')''))] s2))"

text \<open>
  \<open>request\<close> after its \<open>await\<close>, on the frame its promise was resolved with: what the
  caller's promise is rejected with (\<open>Inl\<close>) or fulfilled with. \<open>res.ok\<close> of \<open>null\<close> throws;
  \<open>new Error(...)\<close> and \<open>JSON.parse(...)\<close> convert their argument to a string.
\<close>

definition request_result :: "json \<Rightarrow> js_error + json" where
  "request_result res =
     (if res = JNull then Inl TypeError
      else if \<not> truthy (field res ''ok'') then
        (case ToString (nullish
                (case field res ''error'' of
                   None \<Rightarrow> None
                 | Some e \<Rightarrow> if e = JNull then None else field e ''message'')
                (JStr ''bridge request failed'')) of
           None \<Rightarrow> Inl TypeError
         | Some msg \<Rightarrow> Inl (Error msg))
      else
        (case field res ''payloadJSON'' of
           None \<Rightarrow> Inr JNull
         | Some p \<Rightarrow>
             if truthy (Some p) then
               (case ToString p of
                  None \<Rightarrow> Inl TypeError
                | Some text \<Rightarrow>
                    (case JSON_parse text of None \<Rightarrow> Inl SyntaxError | Some v \<Rightarrow> Inr v))
             else Inr JNull))"

subsection \<open>Connecting and disconnecting\<close>

definition handleDisconnect :: "js_error option \<Rightarrow> BridgeClient \<Rightarrow> BridgeClient" where
  "handleDisconnect err s =
     (let s1 = (if \<not> connected s \<and> helloReject s then
                  (emit [HelloReject
                           (case err of None \<Rightarrow> Error ''bridge connection failed'' | Some e \<Rightarrow> e)] s)
                    \<lparr>helloResolve := False, helloReject := False\<rparr>
                else s)
      in if \<not> connected s1 \<and> socket s1 = None then s1
         else
           (let s2 = s1\<lparr>connected := False, socket := None\<rparr>;
                s3 = reject_all
                       (case err of None \<Rightarrow> Error ''bridge connection closed'' | Some e \<Rightarrow> e) s2;
                s4 = s3\<lparr>pendingRpc := []\<rparr>
            in emit (if onDisconnected (opts s4) then [OnDisconnected err] else []) s4))"

definition connect :: "BridgeClient \<Rightarrow> BridgeClient" where
  "connect s =
     (if connected s then s
      else
        (let s1 = s\<lparr>helloResolve := True, helloReject := True\<rparr>;
             cfg = opts s1;
             sock = (if tls cfg then TLSSocket else NetSocket);
             s2 = emit [if tls cfg then TlsConnect (host cfg) (port cfg) False
                        else NetConnect (host cfg) (port cfg)] s1;
             s3 = s2\<lparr>socket := Some sock\<rparr>;
             s4 = emit [SetNoDelay True] s3
         in s4\<lparr>secureConnectListener :=
                  (tls cfg \<and> sock = TLSSocket \<and>
                   (case tlsFingerprint cfg of None \<Rightarrow> False | Some f \<Rightarrow> f \<noteq> []))\<rparr>))"

definition close :: "BridgeClient \<Rightarrow> BridgeClient" where
  "close s =
     (let s1 = (case socket s of
                  None \<Rightarrow> s
                | Some sock \<Rightarrow> (emit [SocketDestroy None] s)\<lparr>socket := None\<rparr>);
          s2 = s1\<lparr>connected := False\<rparr>;
          s3 = reject_all (Error ''bridge client closed'') s2
      in s3\<lparr>pendingRpc := []\<rparr>)"

text \<open>The listener of \<open>secureConnect\<close>, registered with \<open>once\<close>.\<close>

definition on_secureConnect :: "PeerCertificate option \<Rightarrow> BridgeClient \<Rightarrow> BridgeClient" where
  "on_secureConnect cert s =
     (if \<not> secureConnectListener s then s
      else
        (let s1 = s\<lparr>secureConnectListener := False\<rparr>;
             fingerprint = (case cert of None \<Rightarrow> None | Some c \<Rightarrow> extractFingerprint c);
             pin = normalizeFingerprint
                     (case tlsFingerprint (opts s1) of None \<Rightarrow> [] | Some f \<Rightarrow> f)
         in if fingerprint = None \<or> fingerprint = Some [] \<or> fingerprint \<noteq> Some pin then
              (let err = Error ''bridge tls fingerprint mismatch''
               in emit [SocketDestroy (Some err)] (handleDisconnect (Some err) s1))
            else s1))"


subsection \<open>Receiving\<close>

text \<open>
  \<open>handleFrame\<close>; \<open>frame_type\<close> is its \<open>String(frame.type ?? "")\<close>. Reading \<open>frame.type\<close>
  of \<open>null\<close> throws a TypeError; any other value has the property or gives \<open>undefined\<close>.
  Each \<open>String(...)\<close>, and \<open>new Error(message)\<close>, which converts its message the same
  way, throws where \<open>ToString\<close> does. \<open>pendingRpc.get(res.id)\<close> finds an entry only for a
  string, the keys being strings.
\<close>

definition frame_type :: "json \<Rightarrow> string option" where
  "frame_type frame = ToString (nullish (field frame ''type'') (JStr []))"

definition handleFrame :: "json \<Rightarrow> BridgeClient \<Rightarrow> js_error + BridgeClient" where
  "handleFrame frame s =
     (if frame = JNull then Inl TypeError
      else
        (case frame_type frame of
           None \<Rightarrow> Inl TypeError
         | Some type \<Rightarrow>
            if type = ''hello-ok'' then
              (let s1 = s\<lparr>connected := True\<rparr>;
                   s2 = emit (if helloResolve s1 then [HelloResolve] else []) s1;
                   s3 = s2\<lparr>helloResolve := False, helloReject := False\<rparr>
               in Inr (emit (if onConnected (opts s3) then [OnConnected frame] else []) s3))
            else if type = ''pair-ok'' then
              (case ToString (nullish (field frame ''token'') (JStr [])) of
                 None \<Rightarrow> Inl TypeError
               | Some t \<Rightarrow>
                   (let tok = trim t
                    in if tok \<noteq> [] then
                         (let s1 = s\<lparr>opts := (opts s)\<lparr>token := Some tok\<rparr>\<rparr>
                          in Inr (emit (if onPairToken (opts s1) then [OnPairToken tok] else [])
                                    s1))
                       else Inr s))
            else if type = ''error'' then
              (case ToString (nullish (field frame ''code'') (JStr [])) of
                 None \<Rightarrow> Inl TypeError
               | Some code \<Rightarrow>
                   if code = ''NOT_PAIRED'' \<or> code = ''UNAUTHORIZED'' then
                     (let s1 = s\<lparr>opts := (opts s)\<lparr>token := None\<rparr>\<rparr>;
                          s2 = emit (if onAuthReset (opts s1) then [OnAuthReset] else []) s1
                      in Inr (sendPairRequest s2))
                   else
                     (case ToString (nullish (field frame ''message'') (JStr ''bridge error'')) of
                        None \<Rightarrow> Inl TypeError
                      | Some msg \<Rightarrow> Inr (handleDisconnect (Some (Error msg)) s)))
            else if type = ''pong'' then Inr s
            else if type = ''ping'' then
              (case ToString (nullish (field frame ''id'') (JStr [])) of
                 None \<Rightarrow> Inl TypeError
               | Some i \<Rightarrow> Inr (send (JObj [(''type'', JStr ''pong''), (''id'', JStr i)]) s))
            else if type = ''event'' then
              Inr (emit (if onEvent (opts s) then [OnEvent frame] else []) s)
            else if type = ''res'' then
              (case field frame ''id'' of
                 Some (JStr rid) \<Rightarrow>
                   (case map_of (pendingRpc s) rid of
                      None \<Rightarrow> Inr s
                    | Some pending \<Rightarrow>
                        (let s1 = (case timer pending of
                                     None \<Rightarrow> s
                                   | Some t \<Rightarrow> clearTimeout t s);
                             s2 = s1\<lparr>pendingRpc := AList.delete rid (pendingRpc s1)\<rparr>
                         in Inr (emit [RpcResolve (call pending) frame] s2)))
               | _ \<Rightarrow> Inr s)
            else if type = ''invoke'' then
              Inr (emit (if onInvoke (opts s) then [OnInvoke frame] else []) s)
            else if type = ''invoke-res'' then Inr s
            else Inr s))"

text \<open>\<open>s.indexOf(c)\<close>, with \<open>None\<close> for -1.\<close>

definition indexOf :: "string \<Rightarrow> char \<Rightarrow> nat option" where
  "indexOf s c = (if c \<in> set s then Some (length (takeWhile (\<lambda>x. x \<noteq> c) s)) else None)"

lemma indexOf_less: "indexOf s c = Some idx \<Longrightarrow> idx < length s"
proof -
  have "c \<in> set xs \<Longrightarrow> length (takeWhile (\<lambda>x. x \<noteq> c) xs) < length xs" for xs
    by (induction xs) auto
  then show "indexOf s c = Some idx \<Longrightarrow> idx < length s"
    by (auto simp: indexOf_def split: if_splits)
qed

lemma buffer_emit [simp]: "buffer (emit es s) = buffer s"
  by (simp add: emit_def)

lemma buffer_send [simp]: "buffer (send frame s) = buffer s"
  by (simp add: send_def split: option.split)

lemma buffer_reject_pending [simp]: "buffer (reject_pending e p s) = buffer s"
  by (simp add: reject_pending_def clearTimeout_def split: option.split)

lemma buffer_fold_reject: "buffer (fold (\<lambda>kv. reject_pending e (snd kv)) ps s) = buffer s"
  by (induction ps arbitrary: s) simp_all

lemma buffer_reject_all [simp]: "buffer (reject_all e s) = buffer s"
  by (simp add: reject_all_def buffer_fold_reject)

lemma buffer_handleDisconnect [simp]: "buffer (handleDisconnect err s) = buffer s"
  by (simp add: handleDisconnect_def Let_def)

lemma buffer_handleFrame: "handleFrame frame s = Inr s' \<Longrightarrow> buffer s' = buffer s"
  by (auto simp: handleFrame_def Let_def sendPairRequest_def clearTimeout_def
      split: if_splits option.splits json.splits)

text \<open>
  \<open>flush\<close>: the loop takes the text up to the first line feed off the buffer, trims it,
  skips it when it is empty or does not parse, and hands the value to \<open>handleFrame\<close>. An
  exception of \<open>handleFrame\<close> leaves the loop.
\<close>

function flush :: "BridgeClient \<Rightarrow> js_error + BridgeClient" where
  "flush s =
     (case indexOf (buffer s) (CHR 0x0A) of
        None \<Rightarrow> Inr s
      | Some idx \<Rightarrow>
          (let line = trim (take idx (buffer s));
               s1 = s\<lparr>buffer := drop (idx + 1) (buffer s)\<rparr>
           in if line = [] then flush s1
              else
                (case JSON_parse line of
                   None \<Rightarrow> flush s1
                 | Some frame \<Rightarrow>
                     (case handleFrame frame s1 of
                        Inl e \<Rightarrow> Inl e
                      | Inr s2 \<Rightarrow> flush s2))))"
  by pat_completeness auto
termination
proof (relation "measure (\<lambda>s. length (buffer s))", goal_cases)
  case 1
  show ?case by simp
next
  case (2 s idx line s1)
  then show ?case by (auto dest!: indexOf_less)
next
  case (3 s idx line s1)
  then show ?case by (auto dest!: indexOf_less)
next
  case (4 s idx line s1 frame s2)
  then show ?case by (auto dest!: indexOf_less buffer_handleFrame)
qed

declare flush.simps [simp del]

text \<open>The listeners that \<open>connect\<close> puts on the socket.\<close>

definition on_connect :: "BridgeClient \<Rightarrow> BridgeClient" where
  "on_connect s = sendHello s"

definition on_error :: "js_error \<Rightarrow> BridgeClient \<Rightarrow> BridgeClient" where
  "on_error err s = handleDisconnect (Some err) s"

definition on_close :: "BridgeClient \<Rightarrow> BridgeClient" where
  "on_close s = handleDisconnect None s"

definition on_data :: "string \<Rightarrow> BridgeClient \<Rightarrow> js_error + BridgeClient" where
  "on_data chunk s = flush (s\<lparr>buffer := buffer s @ chunk\<rparr>)"

text \<open>What \<open>flush\<close> does with the frames of successive lines: \<open>handleFrame\<close> on each,
  up to the first exception.\<close>

fun handleFrames :: "json list \<Rightarrow> BridgeClient \<Rightarrow> js_error + BridgeClient" where
  "handleFrames [] s = Inr s"
| "handleFrames (f # fs) s =
     (case handleFrame f s of Inl e \<Rightarrow> Inl e | Inr s' \<Rightarrow> handleFrames fs s')"

subsection \<open>Histories\<close>

text \<open>
  What can happen to a client: a call of its owner, or an event of the socket or of a
  timer. A history runs them in order; an exception that leaves a listener ends it.
\<close>

datatype action =
    Connect
  | Close
  | Request string string json nat
  | SendEvent string "json option"
  | SendInvokeResponse json
  | SocketConnect
  | SocketError js_error
  | SocketClose
  | SocketData string
  | SecureConnect "PeerCertificate option"
  | TimerFired nat

fun step :: "action \<Rightarrow> BridgeClient \<Rightarrow> js_error + BridgeClient" where
  "step Connect s = Inr (connect s)"
| "step Close s = Inr (close s)"
| "step (Request rid method params timeoutMs) s = Inr (request rid method params timeoutMs s)"
| "step (SendEvent event payload) s = Inr (sendEvent event payload s)"
| "step (SendInvokeResponse frame) s = Inr (sendInvokeResponse frame s)"
| "step SocketConnect s = Inr (on_connect s)"
| "step (SocketError err) s = Inr (on_error err s)"
| "step SocketClose s = Inr (on_close s)"
| "step (SocketData chunk) s = on_data chunk s"
| "step (SecureConnect cert) s = Inr (on_secureConnect cert s)"
| "step (TimerFired t) s = Inr (on_timeout t s)"

fun run :: "action list \<Rightarrow> BridgeClient \<Rightarrow> js_error + BridgeClient" where
  "run [] s = Inr s"
| "run (a # as) s = (case step a s of Inl e \<Rightarrow> Inl e | Inr s' \<Rightarrow> run as s')"


text \<open>Calls of \<open>request\<close> one after the other, each with its id, method, parameters and
  timeout.\<close>

fun requests :: "(string \<times> string \<times> json \<times> nat) list \<Rightarrow> BridgeClient \<Rightarrow> BridgeClient" where
  "requests [] s = s"
| "requests ((rid, method, params, timeoutMs) # rs) s =
     requests rs (request rid method params timeoutMs s)"

subsection \<open>Two predicates on text\<close>


text \<open>The text starts with a character that is not white space and closes no array or
  object, as the text of every JSON value does.\<close>

definition first_ok :: "string \<Rightarrow> bool" where
  "first_ok s = (s \<noteq> [] \<and> \<not> is_ws (hd s) \<and> hd s \<noteq> CHR '']'' \<and> hd s \<noteq> CHR ''}'')"

subsection \<open>Sample configurations\<close>

text \<open>A node that connects in the clear with no stored token, and the same node over TLS
  with a pinned fingerprint. The worked examples below run on them.\<close>

definition node_options :: BridgeClientOptions where
  "node_options =
     \<lparr>host = ''gateway.local'', port = 18790, tls = False, tlsFingerprint = None,
      nodeId = ''node-1'', token = None, displayName = Some ''Node'',
      platform = Some ''linux'', version = None, deviceFamily = None,
      modelIdentifier = None, caps = Some [''system''], commands = Some [''system.run''],
      permissions = None, onInvoke = True, onEvent = True, onPairToken = True,
      onAuthReset = True, onConnected = True, onDisconnected = True\<rparr>"

definition tls_options :: BridgeClientOptions where
  "tls_options = node_options\<lparr>tls := True, tlsFingerprint := Some ''AB:CD:01''\<rparr>"

text \<open>A reply to the call \<open>rid\<close>.\<close>

definition res_ok :: "string \<Rightarrow> json" where
  "res_ok rid = JObj [(''type'', JStr ''res''), (''id'', JStr rid), (''ok'', JBool True)]"

text \<open>A client whose owner issues a call right after \<open>connect\<close>, before any event.\<close>

definition early_request :: BridgeClient where
  "early_request =
     request ''id-1'' ''skills.bins'' JNull 5000 (connect (new_BridgeClient node_options))"

text \<open>A client whose socket failed, and whose owner then issued a call.\<close>

definition idle_with_call :: BridgeClient where
  "idle_with_call =
     request ''id-1'' ''skills.bins'' JNull 5000
       (on_error (Error ''ECONNRESET'') (connect (new_BridgeClient node_options)))"

section \<open>Properties\<close>

subsection \<open>Trimming\<close>

lemma trimStart_Nil [simp]: "trimStart [] = []"
  by (subst trimStart.simps) (simp add: js_whitespace_def)

lemma trimEnd_Nil [simp]: "trimEnd [] = []"
  by (subst trimEnd.simps) (simp add: js_whitespace_def)

lemma trim_Nil [simp]: "trim [] = []"
  by (simp add: trim_def)

lemma find_ws:
  "w \<in> set js_whitespace \<Longrightarrow> find (\<lambda>x. prefix x (w @ r)) js_whitespace = Some w"
  unfolding js_whitespace_def set_simps insert_iff empty_iff
  by (elim disjE FalseE; simp)

lemma trimStart_ws: "w \<in> set js_whitespace \<Longrightarrow> trimStart (w @ r) = trimStart r"
  by (subst trimStart.simps) (simp add: find_ws)

lemma trim_whitespace_only: "set ws \<subseteq> set js_whitespace \<Longrightarrow> trim (concat ws) = []"
proof -
  have "set ws \<subseteq> set js_whitespace \<Longrightarrow> trimStart (concat ws) = []"
    by (induction ws) (simp_all add: trimStart_ws)
  then show "set ws \<subseteq> set js_whitespace \<Longrightarrow> trim (concat ws) = []"
    by (simp add: trim_def)
qed

subsection \<open>Pairing: the token of a pair-ok frame\<close>

text \<open>
  C10. A \<open>pair-ok\<close> frame whose \<open>token\<close> is missing, \<open>null\<close>, empty or made of white space
  only leaves the client as it was: the stored token is unchanged and \<open>onPairToken\<close> is
  not called. In general, when the token converts to a string, the stored token is
  replaced, by the trimmed text, exactly when that text is not empty, and \<open>onPairToken\<close>
  is then called with it (when the callback was given); and whenever the frame changes
  the stored token, the received token was not blank after trimming.
\<close>

theorem pair_ok_blank_token:
  assumes "frame \<noteq> JNull" and "frame_type frame = Some ''pair-ok''"
  shows "((field frame ''token'' = None \<or> field frame ''token'' = Some JNull \<or>
           (\<exists>ws. set ws \<subseteq> set js_whitespace \<and>
                 field frame ''token'' = Some (JStr (concat ws))))
          \<longrightarrow> handleFrame frame s = Inr s) \<and>
         (\<forall>t. ToString (nullish (field frame ''token'') (JStr [])) = Some t \<longrightarrow>
            (\<exists>s'. handleFrame frame s = Inr s' \<and>
               (if trim t = [] then s' = s
                else token (opts s') = Some (trim t) \<and>
                     effects s' = effects s @
                       (if onPairToken (opts s) then [OnPairToken (trim t)] else [])))) \<and>
         (\<forall>s'. handleFrame frame s = Inr s' \<and> token (opts s') \<noteq> token (opts s) \<longrightarrow>
            (\<exists>t. ToString (nullish (field frame ''token'') (JStr [])) = Some t \<and>
                 trim t \<noteq> [] \<and> token (opts s') = Some (trim t)))"
proof -
  have step: "handleFrame frame s =
      (if trim t \<noteq> [] then
         Inr (emit (if onPairToken (opts s) then [OnPairToken (trim t)] else [])
                (s\<lparr>opts := (opts s)\<lparr>token := Some (trim t)\<rparr>\<rparr>))
       else Inr s)"
    if "ToString (nullish (field frame ''token'') (JStr [])) = Some t" for t
    using assms that by (simp add: handleFrame_def Let_def)
  have thrown: "handleFrame frame s = Inl TypeError"
    if "ToString (nullish (field frame ''token'') (JStr [])) = None"
    using assms that by (simp add: handleFrame_def)
  have blank: "\<exists>t. ToString (nullish (field frame ''token'') (JStr [])) = Some t \<and> trim t = []"
    if "field frame ''token'' = None \<or> field frame ''token'' = Some JNull \<or>
        (\<exists>ws. set ws \<subseteq> set js_whitespace \<and>
              field frame ''token'' = Some (JStr (concat ws)))"
    using that by (elim disjE exE conjE) (simp_all add: trim_whitespace_only)
  have first: "handleFrame frame s = Inr s"
    if "field frame ''token'' = None \<or> field frame ''token'' = Some JNull \<or>
        (\<exists>ws. set ws \<subseteq> set js_whitespace \<and>
              field frame ''token'' = Some (JStr (concat ws)))"
    using blank [OF that] step by auto
  have second: "\<exists>s'. handleFrame frame s = Inr s' \<and>
               (if trim t = [] then s' = s
                else token (opts s') = Some (trim t) \<and>
                     effects s' = effects s @
                       (if onPairToken (opts s) then [OnPairToken (trim t)] else []))"
    if "ToString (nullish (field frame ''token'') (JStr [])) = Some t" for t
    using step [OF that] by (cases "trim t = []") (simp_all add: emit_def)
  have third: "\<exists>t. ToString (nullish (field frame ''token'') (JStr [])) = Some t \<and>
                 trim t \<noteq> [] \<and> token (opts s') = Some (trim t)"
    if "handleFrame frame s = Inr s'" "token (opts s') \<noteq> token (opts s)" for s'
  proof (cases "ToString (nullish (field frame ''token'') (JStr []))")
    case None
    then show ?thesis using thrown that(1) by simp
  next
    case (Some t)
    then show ?thesis
      using step [OF Some] that by (cases "trim t = []") (auto simp: emit_def)
  qed
  show ?thesis
    using first second third by blast
qed

theorem pair_ok_blank_token_witness:
  "handleFrame (JObj [(''type'', JStr ''pair-ok''), (''token'', JStr [CHR 0x20, CHR 0x09])])
     (new_BridgeClient node_options) = Inr (new_BridgeClient node_options)"
proof -
  have "set [[CHR 0x20], [CHR 0x09]] \<subseteq> set js_whitespace"
    by (simp add: js_whitespace_def)
  then have "\<exists>ws. set ws \<subseteq> set js_whitespace \<and>
      field (JObj [(''type'', JStr ''pair-ok''), (''token'', JStr [CHR 0x20, CHR 0x09])]) ''token''
        = Some (JStr (concat ws))"
    by (intro exI[of _ "[[CHR 0x20], [CHR 0x09]]"]) simp
  then show ?thesis
    using pair_ok_blank_token
      [of "JObj [(''type'', JStr ''pair-ok''), (''token'', JStr [CHR 0x20, CHR 0x09])]"
          "new_BridgeClient node_options"]
    by (simp add: frame_type_def)
qed


subsection \<open>Disconnecting\<close>

lemma fold_reject_pending:
  "fold (\<lambda>kv. reject_pending e (snd kv)) ps s =
     s\<lparr>timers := clear_timers ps (timers s),
       effects := effects s @ map (\<lambda>kv. RpcReject (call (snd kv)) e) ps\<rparr>"
proof (induction ps arbitrary: s)
  case Nil
  show ?case by (simp add: clear_timers_def)
next
  case (Cons p ps)
  have "fold (\<lambda>kv. reject_pending e (snd kv)) (p # ps) s =
        fold (\<lambda>kv. reject_pending e (snd kv)) ps (reject_pending e (snd p) s)"
    by simp
  also have "\<dots> = (reject_pending e (snd p) s)
      \<lparr>timers := clear_timers ps (timers (reject_pending e (snd p) s)),
        effects := effects (reject_pending e (snd p) s) @
                   map (\<lambda>kv. RpcReject (call (snd kv)) e) ps\<rparr>"
    by (rule Cons.IH)
  also have "\<dots> = s\<lparr>timers := clear_timers (p # ps) (timers s),
        effects := effects s @ map (\<lambda>kv. RpcReject (call (snd kv)) e) (p # ps)\<rparr>"
    by (simp add: clear_timers_def reject_pending_def emit_def clearTimeout_def
        split: option.split)
  finally show ?case .
qed

lemma reject_all_eq:
  "reject_all e s =
     s\<lparr>timers := clear_timers (pendingRpc s) (timers s),
       effects := effects s @ map (\<lambda>kv. RpcReject (call (snd kv)) e) (pendingRpc s)\<rparr>"
  by (simp add: reject_all_def fold_reject_pending)

lemma handleDisconnect_live:
  assumes "connected s \<or> socket s \<noteq> None"
  shows "handleDisconnect err s =
     s\<lparr>socket := None, pendingRpc := [], connected := False,
       helloResolve := helloResolve s \<and> (connected s \<or> \<not> helloReject s),
       helloReject := connected s \<and> helloReject s,
       timers := clear_timers (pendingRpc s) (timers s),
       effects := effects s
         @ (if \<not> connected s \<and> helloReject s
            then [HelloReject (case err of None \<Rightarrow> Error ''bridge connection failed'' | Some e \<Rightarrow> e)]
            else [])
         @ map (\<lambda>kv. RpcReject (call (snd kv))
                  (case err of None \<Rightarrow> Error ''bridge connection closed'' | Some e \<Rightarrow> e))
             (pendingRpc s)
         @ (if onDisconnected (opts s) then [OnDisconnected err] else [])\<rparr>"
  using assms
  by (intro BridgeClient.equality) (auto simp: handleDisconnect_def Let_def reject_all_eq emit_def)

lemma handleDisconnect_idle:
  assumes "\<not> connected s" and "socket s = None"
  shows "handleDisconnect err s =
     (if helloReject s
      then s\<lparr>helloResolve := False, helloReject := False,
             effects := effects s @
               [HelloReject (case err of None \<Rightarrow> Error ''bridge connection failed'' | Some e \<Rightarrow> e)]\<rparr>
      else s)"
  using assms
  by (auto simp: handleDisconnect_def Let_def emit_def)


lemma connect_eq:
  "\<not> connected s \<Longrightarrow>
   connect s =
     s\<lparr>socket := Some (if tls (opts s) then TLSSocket else NetSocket),
       helloResolve := True, helloReject := True,
       secureConnectListener :=
         (tls (opts s) \<and> (case tlsFingerprint (opts s) of None \<Rightarrow> False | Some f \<Rightarrow> f \<noteq> [])),
       effects := effects s @
         [if tls (opts s) then TlsConnect (host (opts s)) (port (opts s)) False
          else NetConnect (host (opts s)) (port (opts s)),
          SetNoDelay True]\<rparr>"
  by (intro BridgeClient.equality) (auto simp: connect_def Let_def emit_def)

lemma on_connect_eq:
  "on_connect s =
     (case socket s of
        None \<Rightarrow> s
      | Some sock \<Rightarrow>
          s\<lparr>effects := effects s @ [SocketWrite (JSON_stringify (hello_frame (opts s)) @ [CHR 0x0A])]\<rparr>)"
  by (simp add: on_connect_def sendHello_def send_def emit_def split: option.split)

lemma close_eq:
  "close s =
     s\<lparr>socket := None, pendingRpc := [], connected := False,
       timers := clear_timers (pendingRpc s) (timers s),
       effects := effects s
         @ (case socket s of None \<Rightarrow> [] | Some sock \<Rightarrow> [SocketDestroy None])
         @ map (\<lambda>kv. RpcReject (call (snd kv)) (Error ''bridge client closed'')) (pendingRpc s)\<rparr>"
  by (intro BridgeClient.equality)
     (auto simp: close_def Let_def reject_all_eq emit_def split: option.split)

lemma request_eq:
  "request rid method params timeoutMs s =
     s\<lparr>pendingRpc := AList.update rid \<lparr>call = handles s, timer = Some (handles s)\<rparr> (pendingRpc s),
       timers := AList.update (handles s)
          \<lparr>t_id = rid, t_method = method, t_call = handles s, t_ms = timeoutMs\<rparr> (timers s),
       handles := Suc (handles s),
       effects := effects s @
         (case socket s of
            None \<Rightarrow> []
          | Some sock \<Rightarrow>
              [SocketWrite (JSON_stringify (req_frame rid method params) @ [CHR 0x0A])])\<rparr>"
  by (intro BridgeClient.equality)
     (auto simp: request_def Let_def setTimeout_def send_def emit_def split: option.split)

lemma on_timeout_eq:
  "map_of (timers u) t = Some c \<Longrightarrow>
   on_timeout t u =
     u\<lparr>pendingRpc := AList.delete (t_id c) (pendingRpc u),
       timers := AList.delete t (timers u),
       effects := effects u @
         [RpcReject (t_call c) (Error (''bridge request timeout ('' @ t_method c @ '')''))]\<rparr>"
  by (intro BridgeClient.equality) (auto simp: on_timeout_def Let_def emit_def)

lemma clear_timers_absent: "map_of ts t = None \<Longrightarrow> map_of (clear_timers ps ts) t = None"
proof (induction ps arbitrary: ts)
  case Nil
  then show ?case by (simp add: clear_timers_def)
next
  case (Cons p ps)
  have "clear_timers (p # ps) ts =
        clear_timers ps (case timer (snd p) of None \<Rightarrow> ts | Some u \<Rightarrow> AList.delete u ts)"
    by (simp add: clear_timers_def)
  moreover have "map_of (case timer (snd p) of None \<Rightarrow> ts | Some u \<Rightarrow> AList.delete u ts) t = None"
    using Cons.prems by (simp add: delete_conv split: option.split)
  ultimately show ?case using Cons.IH by simp
qed

lemma clear_timers_cleared:
  "kv \<in> set ps \<Longrightarrow> timer (snd kv) = Some t \<Longrightarrow> map_of (clear_timers ps ts) t = None"
proof (induction ps arbitrary: ts)
  case Nil
  then show ?case by simp
next
  case (Cons p ps)
  have unfold: "clear_timers (p # ps) ts =
        clear_timers ps (case timer (snd p) of None \<Rightarrow> ts | Some u \<Rightarrow> AList.delete u ts)"
    by (simp add: clear_timers_def)
  show ?case
  proof (cases "kv = p")
    case True
    then have "map_of (case timer (snd p) of None \<Rightarrow> ts | Some u \<Rightarrow> AList.delete u ts) t = None"
      using Cons.prems by (simp add: delete_conv)
    then show ?thesis unfolding unfold by (rule clear_timers_absent)
  next
    case False
    then have "kv \<in> set ps" using Cons.prems by simp
    then show ?thesis unfolding unfold using Cons.prems(2) by (rule Cons.IH)
  qed
qed

text \<open>
  C8, as the code has it. A socket \<open>error\<close> or \<open>close\<close> event runs \<open>handleDisconnect\<close>. When
  the client is connected or holds a socket, every pending call is rejected (with the
  socket's error on an \<open>error\<close> event, with "bridge connection closed" on a \<open>close\<close>
  event) and its timer cleared, the table is emptied, \<open>connected\<close> becomes false and
  \<open>socket\<close> null, and \<open>onDisconnected\<close> is called; a \<open>connect\<close> still waiting for its
  handshake is rejected first. When the client is already disconnected, the guard at the
  top of \<open>handleDisconnect\<close> returns: nothing but a waiting \<open>connect\<close> is rejected, the table
  and the timers stay as they are, and \<open>onDisconnected\<close> is not called.
\<close>

theorem disconnect_rejects_pending:
  "on_close s = handleDisconnect None s \<and> on_error e s = handleDisconnect (Some e) s \<and>
   (connected s \<or> socket s \<noteq> None \<longrightarrow>
      pendingRpc (handleDisconnect err s) = [] \<and>
      \<not> connected (handleDisconnect err s) \<and>
      socket (handleDisconnect err s) = None \<and>
      effects (handleDisconnect err s) =
        effects s
        @ (if \<not> connected s \<and> helloReject s
           then [HelloReject (case err of None \<Rightarrow> Error ''bridge connection failed'' | Some x \<Rightarrow> x)]
           else [])
        @ map (\<lambda>kv. RpcReject (call (snd kv))
                 (case err of None \<Rightarrow> Error ''bridge connection closed'' | Some x \<Rightarrow> x))
            (pendingRpc s)
        @ (if onDisconnected (opts s) then [OnDisconnected err] else []) \<and>
      (\<forall>kv \<in> set (pendingRpc s). \<forall>t. timer (snd kv) = Some t \<longrightarrow>
          map_of (timers (handleDisconnect err s)) t = None)) \<and>
   (\<not> connected s \<and> socket s = None \<longrightarrow>
      pendingRpc (handleDisconnect err s) = pendingRpc s \<and>
      timers (handleDisconnect err s) = timers s \<and>
      effects (handleDisconnect err s) =
        effects s
        @ (if helloReject s
           then [HelloReject (case err of None \<Rightarrow> Error ''bridge connection failed'' | Some x \<Rightarrow> x)]
           else []))"
proof -
  have live: "connected s \<or> socket s \<noteq> None \<Longrightarrow>
      (\<forall>kv \<in> set (pendingRpc s). \<forall>t. timer (snd kv) = Some t \<longrightarrow>
          map_of (timers (handleDisconnect err s)) t = None)"
    by (auto simp: handleDisconnect_live clear_timers_cleared)
  show ?thesis
    using live
    by (auto simp: on_close_def on_error_def handleDisconnect_live handleDisconnect_idle)
qed

theorem disconnect_rejects_pending_witness:
  "effects (on_close (request ''id-1'' ''skills.bins'' JNull 5000 (connect (new_BridgeClient node_options))))
   = [NetConnect ''gateway.local'' 18790, SetNoDelay True,
      SocketWrite (JSON_stringify (req_frame ''id-1'' ''skills.bins'' JNull) @ [CHR 0x0A]),
      HelloReject (Error ''bridge connection failed''),
      RpcReject 0 (Error ''bridge connection closed''),
      OnDisconnected None]"
  using disconnect_rejects_pending
    [of "request ''id-1'' ''skills.bins'' JNull 5000 (connect (new_BridgeClient node_options))"
        "Error []" None]
  by (simp add: request_eq connect_eq new_BridgeClient_def node_options_def)


text \<open>
  The claim as it was stated, that every \<open>close\<close> event rejects the pending calls and calls
  \<open>onDisconnected\<close>, fails on a client that is already disconnected: after a socket error,
  a call the owner issued stays pending through the \<open>close\<close> event that follows, and
  \<open>onDisconnected\<close>, though given, is not called again.
\<close>

theorem close_event_when_idle_counterexample:
  "onDisconnected (opts idle_with_call) \<and>
   pendingRpc idle_with_call = [(''id-1'', \<lparr>call = 0, timer = Some 0\<rparr>)] \<and>
   on_close idle_with_call = idle_with_call"
  by (simp add: idle_with_call_def request_eq on_error_def on_close_def connect_eq
      new_BridgeClient_def node_options_def handleDisconnect_live handleDisconnect_idle)

subsection \<open>TLS: the pinned fingerprint\<close>

text \<open>
  C3. Over TLS, \<open>connect\<close> opens the stream with \<open>rejectUnauthorized: false\<close>. When no
  fingerprint is pinned (the option is missing or empty) it registers no \<open>secureConnect\<close>
  listener, so that event changes nothing whatever certificate the peer shows: the
  client checks no certificate.
\<close>

theorem tls_connect_unverified:
  assumes "tls (opts s)" and "\<not> connected s"
  shows "effects (connect s) =
           effects s @ [TlsConnect (host (opts s)) (port (opts s)) False, SetNoDelay True] \<and>
         socket (connect s) = Some TLSSocket \<and>
         (tlsFingerprint (opts s) = None \<or> tlsFingerprint (opts s) = Some [] \<longrightarrow>
            \<not> secureConnectListener (connect s) \<and>
            (\<forall>cert. on_secureConnect cert (connect s) = connect s) \<and>
            (\<forall>cert. on_secureConnect cert (on_connect (connect s)) = on_connect (connect s)))"
  using assms
  by (auto simp: connect_eq on_connect_eq on_secureConnect_def)

theorem tls_connect_unverified_witness:
  "effects (on_secureConnect (Some \<lparr>fingerprint256 = Some ''00:11''\<rparr>)
      (connect (new_BridgeClient (node_options\<lparr>tls := True\<rparr>))))
   = [TlsConnect ''gateway.local'' 18790 False, SetNoDelay True]"
  using tls_connect_unverified [of "new_BridgeClient (node_options\<lparr>tls := True\<rparr>)"]
  by (simp add: new_BridgeClient_def node_options_def)

lemma is_hex_cases: "is_hex c \<Longrightarrow> c \<in> set ''0123456789abcdefABCDEF''"
proof -
  assume h: "is_hex c"
  define n where "n = (of_char c :: nat)"
  have c: "c = char_of n" by (simp add: n_def)
  from h have "n \<in> {48..57} \<union> {97..102} \<union> {65..70}"
    by (auto simp: is_hex_def n_def Let_def)
  then have "n \<in> {48,49,50,51,52,53,54,55,56,57,97,98,99,100,101,102,65,66,67,68,69,70}"
    by (auto simp: atLeastAtMost_iff) presburger+
  then show ?thesis unfolding c
    by (elim insertE emptyE) (simp_all add: char_of_eq_iff)
qed

lemma normalize_hex_lower: "set (normalizeFingerprint x) \<subseteq> set ''0123456789abcdef''"
proof
  fix d assume "d \<in> set (normalizeFingerprint x)"
  then obtain c where c: "is_hex c" and d: "d = (if 65 \<le> (of_char c :: nat) \<and> (of_char c :: nat) \<le> 90
               then char_of ((of_char c :: nat) + 32) else c)"
    by (auto simp: normalizeFingerprint_def toLowerCase_def)
  from is_hex_cases[OF c] show "d \<in> set ''0123456789abcdef''"
    unfolding d by (simp only: set_simps, elim insertE emptyE) (simp_all add: char_of_eq_iff)
qed


lemma normalize_strips:
  "\<not> is_hex c \<Longrightarrow> normalizeFingerprint (xs @ c # ys) = normalizeFingerprint (xs @ ys)"
  by (simp add: normalizeFingerprint_def)

text \<open>
  C2. Over TLS with a pinned fingerprint, \<open>connect\<close> registers the \<open>secureConnect\<close>
  listener. When the peer shows no certificate, or one without a fingerprint, or one whose
  normalized fingerprint differs from the normalized pin, the listener rejects the waiting
  \<open>connect\<close> with "bridge tls fingerprint mismatch", rejects the pending calls, calls
  \<open>onDisconnected\<close>, destroys the socket and leaves the client disconnected; it opens no
  new stream. When the normalized values are equal (and not empty) the connection goes on.
  Normalizing leaves lower-case hexadecimal digits only and drops every other character.
\<close>

theorem tls_pin_mismatch_aborts:
  assumes "tls (opts s)" and "\<not> connected s"
    and "tlsFingerprint (opts s) = Some pin" and "pin \<noteq> []"
    and "t = connect s \<or> t = on_connect (connect s)"
  shows "secureConnectListener t \<and>
     (cert = None \<or>
      (\<exists>c. cert = Some c \<and>
         (fingerprint256 c = None \<or>
          (\<exists>v. fingerprint256 c = Some v \<and>
               normalizeFingerprint v \<noteq> normalizeFingerprint pin))) \<longrightarrow>
        socket (on_secureConnect cert t) = None \<and>
        \<not> connected (on_secureConnect cert t) \<and>
        \<not> secureConnectListener (on_secureConnect cert t) \<and>
        pendingRpc (on_secureConnect cert t) = [] \<and>
        effects (on_secureConnect cert t) =
          effects t
          @ [HelloReject (Error ''bridge tls fingerprint mismatch'')]
          @ map (\<lambda>kv. RpcReject (call (snd kv)) (Error ''bridge tls fingerprint mismatch''))
              (pendingRpc s)
          @ (if onDisconnected (opts s)
             then [OnDisconnected (Some (Error ''bridge tls fingerprint mismatch''))] else [])
          @ [SocketDestroy (Some (Error ''bridge tls fingerprint mismatch''))]) \<and>
     (\<forall>c v. cert = Some c \<and> fingerprint256 c = Some v \<and>
            normalizeFingerprint v = normalizeFingerprint pin \<and> normalizeFingerprint v \<noteq> [] \<longrightarrow>
            on_secureConnect cert t = t\<lparr>secureConnectListener := False\<rparr>) \<and>
     set (normalizeFingerprint x) \<subseteq> set ''0123456789abcdef'' \<and>
     (\<forall>c. \<not> is_hex c \<longrightarrow> normalizeFingerprint (xs @ c # ys) = normalizeFingerprint (xs @ ys))"
proof -
  have t: "secureConnectListener t" "\<not> connected t" "helloReject t" "socket t \<noteq> None"
    "opts t = opts s" "pendingRpc t = pendingRpc s"
    using assms by (auto simp: connect_eq on_connect_eq)
  have abort: "on_secureConnect cert t =
      emit [SocketDestroy (Some (Error ''bridge tls fingerprint mismatch''))]
        (handleDisconnect (Some (Error ''bridge tls fingerprint mismatch''))
           (t\<lparr>secureConnectListener := False\<rparr>))"
    if "cert = None \<or>
      (\<exists>c. cert = Some c \<and>
         (fingerprint256 c = None \<or>
          (\<exists>v. fingerprint256 c = Some v \<and>
               normalizeFingerprint v \<noteq> normalizeFingerprint pin)))"
    using that t assms(3)
    by (auto simp: on_secureConnect_def Let_def extractFingerprint_def split: if_splits)
  have pass: "on_secureConnect cert t = t\<lparr>secureConnectListener := False\<rparr>"
    if "cert = Some c" "fingerprint256 c = Some v"
      "normalizeFingerprint v = normalizeFingerprint pin" "normalizeFingerprint v \<noteq> []" for c v
  proof -
    have "v \<noteq> []" using that(4) by (auto simp: normalizeFingerprint_def toLowerCase_def)
    then show ?thesis
      using that t assms(3)
      by (simp add: on_secureConnect_def Let_def extractFingerprint_def)
  qed
  show ?thesis
    using t abort pass normalize_hex_lower [of x] normalize_strips [of _ xs ys]
    by (auto simp: handleDisconnect_live emit_def)
qed

theorem tls_pin_mismatch_aborts_witness:
  "normalizeFingerprint ''AB:CD:02'' \<noteq> normalizeFingerprint ''AB:CD:01'' \<and>
   effects (on_secureConnect (Some \<lparr>fingerprint256 = Some ''AB:CD:02''\<rparr>)
      (on_connect (connect (new_BridgeClient tls_options))))
   = [TlsConnect ''gateway.local'' 18790 False, SetNoDelay True,
      SocketWrite (JSON_stringify (hello_frame tls_options) @ [CHR 0x0A]),
      HelloReject (Error ''bridge tls fingerprint mismatch''),
      OnDisconnected (Some (Error ''bridge tls fingerprint mismatch'')),
      SocketDestroy (Some (Error ''bridge tls fingerprint mismatch''))]"
proof -
  have ne: "normalizeFingerprint ''AB:CD:02'' \<noteq> normalizeFingerprint ''AB:CD:01''"
    by (simp add: normalizeFingerprint_def toLowerCase_def is_hex_def)
  show ?thesis
    using ne tls_pin_mismatch_aborts
      [of "new_BridgeClient tls_options" "''AB:CD:01''"
          "on_connect (connect (new_BridgeClient tls_options))"
          "Some \<lparr>fingerprint256 = Some ''AB:CD:02''\<rparr>" "[]" "[]" "[]"]
    by (simp add: new_BridgeClient_def tls_options_def node_options_def connect_eq on_connect_eq)
qed



subsection \<open>Calls and their timers\<close>

lemma handleFrame_res_unknown:
  assumes "frame_type frame = Some ''res''"
    and "field frame ''id'' = Some (JStr rid)" and "map_of (pendingRpc s) rid = None"
  shows "handleFrame frame s = Inr s"
proof -
  have "frame \<noteq> JNull" using assms(2) by auto
  then show ?thesis using assms by (simp add: handleFrame_def Let_def)
qed

text \<open>
  C7. \<open>request\<close> arms a timer and registers its call under the id. When the timer fires
  (no \<open>res\<close>, disconnect or \<open>close\<close> has cleared it), the call is rejected with "bridge
  request timeout (method)" and the entry under its id is removed from the table; a \<open>res\<close>
  frame for that id that arrives later changes nothing. The second half holds of any timer
  that is still armed.
\<close>

theorem request_timeout:
  "effects (on_timeout (handles s) (request rid meth params timeoutMs s)) =
     effects (request rid meth params timeoutMs s) @
       [RpcReject (handles s) (Error (''bridge request timeout ('' @ meth @ '')''))] \<and>
   map_of (pendingRpc (request rid meth params timeoutMs s)) rid =
     Some \<lparr>call = handles s, timer = Some (handles s)\<rparr> \<and>
   map_of (pendingRpc (on_timeout (handles s) (request rid meth params timeoutMs s))) rid = None \<and>
   (map_of (timers u) t = Some c \<longrightarrow>
      effects (on_timeout t u) =
        effects u @ [RpcReject (t_call c) (Error (''bridge request timeout ('' @ t_method c @ '')''))] \<and>
      map_of (pendingRpc (on_timeout t u)) (t_id c) = None \<and>
      map_of (timers (on_timeout t u)) t = None \<and>
      (\<forall>frame. frame_type frame = Some ''res'' \<and> field frame ''id'' = Some (JStr (t_id c)) \<longrightarrow>
         handleFrame frame (on_timeout t u) = Inr (on_timeout t u)))"
proof -
  let ?r = "request rid meth params timeoutMs s"
  have armed: "map_of (timers ?r) (handles s) =
      Some \<lparr>t_id = rid, t_method = meth, t_call = handles s, t_ms = timeoutMs\<rparr>"
    by (simp add: request_eq update_conv')
  have general: "effects (on_timeout t u) =
        effects u @ [RpcReject (t_call c) (Error (''bridge request timeout ('' @ t_method c @ '')''))] \<and>
      map_of (pendingRpc (on_timeout t u)) (t_id c) = None \<and>
      map_of (timers (on_timeout t u)) t = None \<and>
      (\<forall>frame. frame_type frame = Some ''res'' \<and> field frame ''id'' = Some (JStr (t_id c)) \<longrightarrow>
         handleFrame frame (on_timeout t u) = Inr (on_timeout t u))"
    if "map_of (timers u) t = Some c" for u t c
  proof -
    have gone: "map_of (pendingRpc (on_timeout t u)) (t_id c) = None"
      using that by (simp add: on_timeout_eq delete_conv')
    show ?thesis
      using that gone by (auto simp: on_timeout_eq delete_conv' intro: handleFrame_res_unknown)
  qed
  show ?thesis
    using general [OF armed] general [of u t c]
    by (simp add: request_eq update_conv')
qed

theorem request_timeout_witness:
  "handleFrame (JObj [(''type'', JStr ''res''), (''id'', JStr ''id-1''), (''ok'', JBool True)])
     (on_timeout 0 (request ''id-1'' ''skills.bins'' JNull 5000 (connect (new_BridgeClient node_options))))
   = Inr (on_timeout 0 (request ''id-1'' ''skills.bins'' JNull 5000 (connect (new_BridgeClient node_options))))"
proof -
  let ?u = "request ''id-1'' ''skills.bins'' JNull 5000 (connect (new_BridgeClient node_options))"
  have armed: "map_of (timers ?u) 0 =
     Some \<lparr>t_id = ''id-1'', t_method = ''skills.bins'', t_call = 0, t_ms = 5000\<rparr>"
    by (simp add: request_eq update_conv' connect_def new_BridgeClient_def Let_def emit_def)
  show ?thesis
    using armed request_timeout [where u = ?u and t = 0 and s = "new_BridgeClient node_options"
        and rid = "''id-0''" and meth = "''ping''" and params = JNull and timeoutMs = 1
        and c = "\<lparr>t_id = ''id-1'', t_method = ''skills.bins'', t_call = 0, t_ms = 5000\<rparr>"]
    by (simp add: frame_type_def)
qed


subsection \<open>What reaches the wire\<close>

lemma written_append [simp]: "written (xs @ ys) = written xs @ written ys"
  by (induction xs rule: written.induct) simp_all

lemma written_rejects [simp]: "written (map (\<lambda>kv. RpcReject (f kv) e) ps) = []"
  by (induction ps) simp_all

lemma flush_invariant:
  assumes buf: "\<And>s b. I s \<Longrightarrow> I (s\<lparr>buffer := b\<rparr>)"
    and frame: "\<And>f s s'. I s \<Longrightarrow> handleFrame f s = Inr s' \<Longrightarrow> I s'"
  shows "I s \<Longrightarrow> flush s = Inr s' \<Longrightarrow> I s'"
proof (induction s rule: flush.induct)
  case (1 s)
  show ?case
  proof (cases "indexOf (buffer s) (CHR 0x0A)")
    case None
    then show ?thesis using "1.prems" by (simp add: flush.simps [of s])
  next
    case (Some idx)
    define line where "line = trim (take idx (buffer s))"
    define s1 where "s1 = s\<lparr>buffer := drop (idx + 1) (buffer s)\<rparr>"
    have I1: "I s1" unfolding s1_def using "1.prems"(1) by (rule buf)
    show ?thesis
    proof (cases "line = []")
      case True
      then have "flush s = flush s1"
        using Some by (simp add: flush.simps [of s] line_def s1_def Let_def)
      then show ?thesis
        using "1.IH"(1) [OF Some line_def s1_def True I1] "1.prems"(2) by simp
    next
      case False
      show ?thesis
      proof (cases "JSON_parse line")
        case None
        then have "flush s = flush s1"
          using Some False by (simp add: flush.simps [of s] line_def s1_def Let_def)
        then show ?thesis
          using "1.IH"(2) [OF Some line_def s1_def False None I1] "1.prems"(2) by simp
      next
        case (Some fr)
        note parsed = Some
        show ?thesis
        proof (cases "handleFrame fr s1")
          case (Inl e)
          then have "flush s = Inl e"
            using \<open>indexOf (buffer s) (CHR 0x0A) = Some idx\<close> False parsed
            by (simp add: flush.simps [of s] line_def s1_def Let_def)
          then show ?thesis using "1.prems"(2) by simp
        next
          case (Inr s2)
          then have "flush s = flush s2"
            using \<open>indexOf (buffer s) (CHR 0x0A) = Some idx\<close> False parsed
            by (simp add: flush.simps [of s] line_def s1_def Let_def)
          moreover have "I s2" using I1 Inr by (rule frame)
          ultimately show ?thesis
            using "1.IH"(3) [OF \<open>indexOf (buffer s) (CHR 0x0A) = Some idx\<close> line_def s1_def
                False parsed Inr] "1.prems"(2)
            by simp
        qed
      qed
    qed
  qed
qed


lemma handleDisconnect_socket [simp]: "socket (handleDisconnect err s) = None"
  by (cases "connected s \<or> socket s \<noteq> None")
     (auto simp: handleDisconnect_live handleDisconnect_idle)

lemma handleDisconnect_written [simp]:
  "written (effects (handleDisconnect err s)) = written (effects s)"
  by (cases "connected s \<or> socket s \<noteq> None")
     (auto simp: handleDisconnect_live handleDisconnect_idle)

lemma send_no_socket [simp]: "socket s = None \<Longrightarrow> send frame s = s"
  by (simp add: send_def)

lemma handleFrame_no_socket:
  assumes "socket s = None" and "handleFrame f s = Inr s'"
  shows "socket s' = None \<and> written (effects s') = written (effects s)"
  using assms
  by (auto simp: handleFrame_def Let_def sendPairRequest_def emit_def clearTimeout_def
      split: if_splits option.splits json.splits)

lemma flush_no_socket:
  assumes "socket s = None" and "flush s = Inr s'"
  shows "socket s' = None \<and> written (effects s') = written (effects s)"
proof -
  define W where "W = written (effects s)"
  define I where "I = (\<lambda>u::BridgeClient. socket u = None \<and> written (effects u) = W)"
  have "I s'"
  proof (rule flush_invariant [where I = I and s = s])
    show "I (u\<lparr>buffer := b\<rparr>)" if "I u" for u b
      using that by (simp add: I_def)
    show "I u'" if "I u" "handleFrame f u = Inr u'" for f u u'
      using that handleFrame_no_socket [of u f u'] by (simp add: I_def)
    show "I s" using assms(1) by (simp add: I_def W_def)
    show "flush s = Inr s'" by (rule assms(2))
  qed
  then show ?thesis by (simp add: I_def W_def)
qed

lemma step_no_socket:
  assumes "socket s = None" and "a \<noteq> Connect" and "step a s = Inr s'"
  shows "socket s' = None \<and> written (effects s') = written (effects s)"
proof (cases a)
  case (SocketData chunk)
  then have "flush (s\<lparr>buffer := buffer s @ chunk\<rparr>) = Inr s'"
    using assms(3) by (simp add: on_data_def)
  then show ?thesis
    using flush_no_socket [of "s\<lparr>buffer := buffer s @ chunk\<rparr>" s'] assms(1) by simp
next
  case (SecureConnect cert)
  then show ?thesis
    using assms
    by (auto simp: on_secureConnect_def Let_def emit_def)
next
  case (TimerFired t)
  then show ?thesis
    using assms
    by (auto simp: on_timeout_def Let_def emit_def split: option.splits)
qed (use assms in \<open>auto simp: close_eq request_eq sendEvent_def sendInvokeResponse_def
      on_connect_eq on_error_def on_close_def\<close>)

lemma run_no_socket:
  assumes "Connect \<notin> set as" and "socket s = None" and "run as s = Inr s'"
  shows "socket s' = None \<and> written (effects s') = written (effects s)"
  using assms
proof (induction as arbitrary: s)
  case Nil
  then show ?case by simp
next
  case (Cons a as)
  from Cons.prems(3) obtain s1 where s1: "step a s = Inr s1" and rest: "run as s1 = Inr s'"
    by (auto split: sum.splits)
  have "socket s1 = None \<and> written (effects s1) = written (effects s)"
    using Cons.prems(1,2) s1 by (intro step_no_socket [of s a s1]) auto
  then show ?case
    using Cons.IH [of s1] Cons.prems(1) rest by simp
qed

text \<open>
  C1, as the code has it. \<open>request\<close> writes its \<open>req\<close> frame exactly when the client holds
  a socket, whether or not \<open>hello-ok\<close> has been received; with no socket it writes nothing.
  Only \<open>connect\<close> gives the client a socket: in a history without a call of \<open>connect\<close>,
  nothing at all is written.
\<close>

theorem req_written_iff_socket:
  "(socket s = None \<longrightarrow> effects (request rid meth params timeoutMs s) = effects s) \<and>
   (socket s \<noteq> None \<longrightarrow>
      effects (request rid meth params timeoutMs s) =
        effects s @ [SocketWrite (JSON_stringify (req_frame rid meth params) @ [CHR 0x0A])]) \<and>
   (Connect \<notin> set as \<and> run as (new_BridgeClient cfg) = Inr s' \<longrightarrow>
      socket s' = None \<and> written (effects s') = [])"
proof -
  have "socket s' = None \<and> written (effects s') = []"
    if "Connect \<notin> set as" "run as (new_BridgeClient cfg) = Inr s'"
    using run_no_socket [OF that(1) _ that(2)] by (simp add: new_BridgeClient_def)
  then show ?thesis
    by (auto simp: request_eq)
qed

theorem req_written_iff_socket_witness:
  "written (effects (request ''id-1'' ''skills.bins'' JNull 5000 (new_BridgeClient node_options))) = [] \<and>
   written (effects (request ''id-1'' ''skills.bins'' JNull 5000
      (connect (new_BridgeClient node_options)))) =
     [JSON_stringify (req_frame ''id-1'' ''skills.bins'' JNull) @ [CHR 0x0A]]"
proof -
  have run0: "run [Request ''id-1'' ''skills.bins'' JNull 5000] (new_BridgeClient node_options) =
      Inr (request ''id-1'' ''skills.bins'' JNull 5000 (new_BridgeClient node_options))"
    by simp
  have sock: "socket (connect (new_BridgeClient node_options)) \<noteq> None"
    by (simp add: connect_eq new_BridgeClient_def)
  show ?thesis
    using run0 sock
      req_written_iff_socket [where as = "[Request ''id-1'' ''skills.bins'' JNull 5000]"
        and cfg = node_options
        and s' = "request ''id-1'' ''skills.bins'' JNull 5000 (new_BridgeClient node_options)"
        and s = "connect (new_BridgeClient node_options)"
        and rid = "''id-1''" and meth = "''skills.bins''" and params = JNull and timeoutMs = 5000]
    by (simp add: connect_eq new_BridgeClient_def)
qed

text \<open>
  The claim as it was stated, that no \<open>req\<close> frame is written before \<open>hello-ok\<close> has been
  received, fails: a call issued right after \<open>connect\<close> is written to the socket while the
  client has received nothing and is not connected.
\<close>

theorem req_before_hello_ok_counterexample:
  "run [Connect, Request ''id-1'' ''skills.bins'' JNull 5000] (new_BridgeClient node_options) =
     Inr early_request \<and>
   \<not> connected early_request \<and>
   effects early_request =
     [NetConnect ''gateway.local'' 18790, SetNoDelay True,
      SocketWrite (JSON_stringify (req_frame ''id-1'' ''skills.bins'' JNull) @ [CHR 0x0A])]"
  by (simp add: early_request_def request_eq connect_eq new_BridgeClient_def node_options_def
      req_frame_def)



subsection \<open>Pairing: the auth reset\<close>

lemma field_object_Cons:
  "field (object ((k, v) # ms)) k' =
     (case field (object ms) k' of
        Some x \<Rightarrow> Some x
      | None \<Rightarrow> if k = k' then v else None)"
  by (cases v) (auto simp: object_def List.map_filter_simps map_add_def split: option.split)

lemma field_object_Nil [simp]: "field (object []) k = None"
  by (simp add: object_def List.map_filter_simps)

lemma option_case_id [simp]: "(case x of None \<Rightarrow> None | Some y \<Rightarrow> Some y) = x"
  by (cases x) simp_all

lemma option_case_map [simp]:
  "(case x of None \<Rightarrow> None | Some y \<Rightarrow> (Some \<circ> f) y) = map_option f x"
  by (cases x) simp_all

lemma pair_request_fields:
  "field (pair_request_frame cfg) ''token'' = None \<and>
   field (pair_request_frame cfg) ''type'' = Some (JStr ''pair-request'') \<and>
   (k \<noteq> ''type'' \<and> k \<noteq> ''token'' \<longrightarrow>
      field (pair_request_frame cfg) k = field (hello_frame cfg) k)"
  by (simp add: pair_request_frame_def hello_frame_def identity_fields_def field_object_Cons)

lemma hello_token:
  "field (hello_frame cfg) ''token'' = map_option JStr (token cfg)"
  by (simp add: hello_frame_def identity_fields_def field_object_Cons)

lemma pair_request_frame_token [simp]:
  "pair_request_frame (cfg\<lparr>token := x\<rparr>) = pair_request_frame cfg"
  by (simp add: pair_request_frame_def identity_fields_def)

lemma handleFrame_auth_error:
  assumes "f \<noteq> JNull" and "frame_type f = Some ''error''"
    and "ToString (nullish (field f ''code'') (JStr [])) = Some ''NOT_PAIRED'' \<or>
         ToString (nullish (field f ''code'') (JStr [])) = Some ''UNAUTHORIZED''"
  shows "handleFrame f s =
     Inr (s\<lparr>opts := (opts s)\<lparr>token := None\<rparr>,
            effects := effects s
              @ (if onAuthReset (opts s) then [OnAuthReset] else [])
              @ (case socket s of
                   None \<Rightarrow> []
                 | Some sock \<Rightarrow>
                     [SocketWrite (JSON_stringify (pair_request_frame (opts s)) @ [CHR 0x0A])])\<rparr>)"
  using assms
  by (auto simp: handleFrame_def Let_def sendPairRequest_def send_def emit_def
      split: option.split)

lemma handleFrame_pair_ok:
  assumes "g \<noteq> JNull" and "frame_type g = Some ''pair-ok''"
    and "field g ''token'' = Some (JStr t)" and "trim t \<noteq> []"
  shows "handleFrame g s =
     Inr (s\<lparr>opts := (opts s)\<lparr>token := Some (trim t)\<rparr>,
            effects := effects s @ (if onPairToken (opts s) then [OnPairToken (trim t)] else [])\<rparr>)"
  using assms
  by (auto simp: handleFrame_def Let_def emit_def)

lemma handleDisconnect_opts [simp]: "opts (handleDisconnect err s) = opts s"
  by (cases "connected s \<or> socket s \<noteq> None")
     (auto simp: handleDisconnect_live handleDisconnect_idle)

lemma send_opts [simp]: "opts (send frame s) = opts s"
  by (simp add: send_def emit_def split: option.split)

lemma connect_opts [simp]: "opts (connect s) = opts s"
  by (simp add: connect_def Let_def emit_def)

lemma step_opts:
  assumes "step a s = Inr s'" and "\<forall>chunk. a \<noteq> SocketData chunk"
  shows "opts s' = opts s"
proof (cases a)
  case Connect
  then show ?thesis using assms by auto
next
  case (SecureConnect cert)
  then show ?thesis using assms by (auto simp: on_secureConnect_def Let_def emit_def)
next
  case (TimerFired t)
  then show ?thesis using assms by (auto simp: on_timeout_def Let_def emit_def split: option.splits)
qed (use assms in \<open>auto simp: close_eq request_eq sendEvent_def sendInvokeResponse_def
      on_connect_eq on_error_def on_close_def split: option.splits\<close>)

lemma run_opts:
  assumes "\<forall>chunk. SocketData chunk \<notin> set as" and "run as s = Inr s'"
  shows "opts s' = opts s"
  using assms
proof (induction as arbitrary: s)
  case Nil
  then show ?case by simp
next
  case (Cons a as)
  from Cons.prems(2) obtain s1 where s1: "step a s = Inr s1" and rest: "run as s1 = Inr s'"
    by (auto split: sum.splits)
  have "opts s1 = opts s" using s1 Cons.prems(1) by (intro step_opts [of a s s1]) auto
  moreover have "opts s' = opts s1" using Cons.prems(1) rest by (intro Cons.IH) auto
  ultimately show ?case by simp
qed

lemma handleFrame_token_change:
  assumes "handleFrame h s = Inr s'" and "token (opts s') \<noteq> token (opts s)"
  shows "frame_type h = Some ''pair-ok'' \<or>
         (frame_type h = Some ''error'' \<and>
          (ToString (nullish (field h ''code'') (JStr [])) = Some ''NOT_PAIRED'' \<or>
           ToString (nullish (field h ''code'') (JStr [])) = Some ''UNAUTHORIZED''))"
  using assms
  by (auto simp: handleFrame_def Let_def sendPairRequest_def emit_def clearTimeout_def
      split: if_splits option.splits json.splits)

text \<open>
  C5. An \<open>error\<close> frame whose code is NOT_PAIRED or UNAUTHORIZED makes the client drop
  its stored token, call \<open>onAuthReset\<close> and send a \<open>pair-request\<close> frame (written when the
  client holds a socket); that frame has no token, and every other field of it but \<open>type\<close>
  is the one of the \<open>hello\<close> frame. A \<open>pair-ok\<close> frame with a token that is not blank makes
  the client store the token (trimmed) and call \<open>onPairToken\<close> with it. The \<open>hello\<close> frame
  carries the stored token, and \<open>sendHello\<close> on the \<open>connect\<close> event writes that frame. The
  stored token stays through every history without received data, and a received frame
  changes it only if it is a \<open>pair-ok\<close> frame or such an \<open>error\<close> frame: every later
  \<open>hello\<close> carries the new token.
\<close>

theorem auth_reset_and_pairing:
  "(f \<noteq> JNull \<and> frame_type f = Some ''error'' \<and>
    (ToString (nullish (field f ''code'') (JStr [])) = Some ''NOT_PAIRED'' \<or>
     ToString (nullish (field f ''code'') (JStr [])) = Some ''UNAUTHORIZED'') \<longrightarrow>
      handleFrame f s =
        Inr (s\<lparr>opts := (opts s)\<lparr>token := None\<rparr>,
               effects := effects s
                 @ (if onAuthReset (opts s) then [OnAuthReset] else [])
                 @ (case socket s of
                      None \<Rightarrow> []
                    | Some sock \<Rightarrow>
                        [SocketWrite (JSON_stringify (pair_request_frame (opts s)) @ [CHR 0x0A])])\<rparr>)) \<and>
   field (pair_request_frame cfg) ''type'' = Some (JStr ''pair-request'') \<and>
   field (pair_request_frame cfg) ''token'' = None \<and>
   (k \<noteq> ''type'' \<and> k \<noteq> ''token'' \<longrightarrow>
      field (pair_request_frame cfg) k = field (hello_frame cfg) k) \<and>
   (g \<noteq> JNull \<and> frame_type g = Some ''pair-ok'' \<and> field g ''token'' = Some (JStr t) \<and> trim t \<noteq> [] \<longrightarrow>
      handleFrame g s =
        Inr (s\<lparr>opts := (opts s)\<lparr>token := Some (trim t)\<rparr>,
               effects := effects s @
                 (if onPairToken (opts s) then [OnPairToken (trim t)] else [])\<rparr>)) \<and>
   field (hello_frame cfg) ''token'' = map_option JStr (token cfg) \<and>
   (socket s \<noteq> None \<longrightarrow>
      effects (on_connect s) =
        effects s @ [SocketWrite (JSON_stringify (hello_frame (opts s)) @ [CHR 0x0A])]) \<and>
   ((\<forall>chunk. SocketData chunk \<notin> set as) \<and> run as s = Inr s' \<longrightarrow> opts s' = opts s) \<and>
   (handleFrame h s = Inr s' \<and> token (opts s') \<noteq> token (opts s) \<longrightarrow>
      frame_type h = Some ''pair-ok'' \<or>
      (frame_type h = Some ''error'' \<and>
       (ToString (nullish (field h ''code'') (JStr [])) = Some ''NOT_PAIRED'' \<or>
        ToString (nullish (field h ''code'') (JStr [])) = Some ''UNAUTHORIZED'')))"
  using handleFrame_auth_error [of f s] pair_request_fields [of cfg k]
    handleFrame_pair_ok [of g t s] hello_token [of cfg] run_opts [of as s s']
    handleFrame_token_change [of h s s']
  by (auto simp: on_connect_eq)

theorem auth_reset_and_pairing_witness:
  "handleFrame (JObj [(''type'', JStr ''error''), (''code'', JStr ''NOT_PAIRED'')])
     (connect (new_BridgeClient node_options)) =
     Inr ((connect (new_BridgeClient node_options))
           \<lparr>opts := node_options\<lparr>token := None\<rparr>,
             effects := [NetConnect ''gateway.local'' 18790, SetNoDelay True, OnAuthReset,
                         SocketWrite (JSON_stringify (pair_request_frame node_options) @ [CHR 0x0A])]\<rparr>) \<and>
   handleFrame (JObj [(''type'', JStr ''pair-ok''), (''token'', JStr ''abc'')])
     (connect (new_BridgeClient node_options)) =
     Inr ((connect (new_BridgeClient node_options))
           \<lparr>opts := node_options\<lparr>token := Some ''abc''\<rparr>,
             effects := [NetConnect ''gateway.local'' 18790, SetNoDelay True, OnPairToken ''abc'']\<rparr>)"
proof -
  have tr: "trim ''abc'' = ''abc''" by code_simp
  show ?thesis
    using tr auth_reset_and_pairing
      [where f = "JObj [(''type'', JStr ''error''), (''code'', JStr ''NOT_PAIRED'')]"
         and g = "JObj [(''type'', JStr ''pair-ok''), (''token'', JStr ''abc'')]"
         and t = "''abc''" and s = "connect (new_BridgeClient node_options)"
         and cfg = node_options and k = "''nodeId''" and as = "[]"
         and s' = "connect (new_BridgeClient node_options)" and h = JNull]
    by (simp add: frame_type_def connect_eq new_BridgeClient_def node_options_def)
qed

subsection \<open>Replies\<close>

lemma handleFrame_res_pending:
  assumes "frame_type frame = Some ''res''"
    and "field frame ''id'' = Some (JStr rid)" and "map_of (pendingRpc s) rid = Some p"
  shows "handleFrame frame s =
     Inr (s\<lparr>pendingRpc := AList.delete rid (pendingRpc s),
            timers := (case timer p of None \<Rightarrow> timers s | Some t \<Rightarrow> AList.delete t (timers s)),
            effects := effects s @ [RpcResolve (call p) frame]\<rparr>)"
proof -
  have "frame \<noteq> JNull" using assms(2) by auto
  then show ?thesis
    using assms
    by (auto simp: handleFrame_def Let_def emit_def clearTimeout_def split: option.split)
qed

lemma requests_snoc:
  "requests (rs @ [(rid, meth, params, timeoutMs)]) s =
     request rid meth params timeoutMs (requests rs s)"
  by (induction rs s rule: requests.induct) simp_all

lemma requests_handles: "handles (requests rs s) = handles s + length rs"
  by (induction rs s rule: requests.induct) (simp_all add: request_eq)

lemma requests_pending:
  assumes "distinct (map fst rs)" and "k < length rs"
  shows "map_of (pendingRpc (requests rs s)) (fst (rs ! k)) =
           Some \<lparr>call = handles s + k, timer = Some (handles s + k)\<rparr>"
  using assms
proof (induction rs arbitrary: k rule: rev_induct)
  case Nil
  then show ?case by simp
next
  case (snoc r rs)
  obtain rid meth params timeoutMs where r: "r = (rid, meth, params, timeoutMs)"
    by (cases r) auto
  have tbl: "map_of (pendingRpc (requests (rs @ [r]) s)) =
      (map_of (pendingRpc (requests rs s)))
        (rid \<mapsto> \<lparr>call = handles s + length rs, timer = Some (handles s + length rs)\<rparr>)"
    by (simp add: r requests_snoc request_eq update_conv' requests_handles)
  show ?case
  proof (cases "k < length rs")
    case True
    have "fst (rs ! k) \<noteq> rid"
      using snoc.prems(1) True by (auto simp: r)
    moreover have "map_of (pendingRpc (requests rs s)) (fst (rs ! k)) =
           Some \<lparr>call = handles s + k, timer = Some (handles s + k)\<rparr>"
      using snoc.prems(1) True by (intro snoc.IH) auto
    ultimately show ?thesis
      using True tbl by (simp add: nth_append)
  next
    case False
    then have "k = length rs" using snoc.prems(2) by simp
    then show ?thesis using tbl by (simp add: r)
  qed
qed

lemma index_takeWhile:
  assumes "distinct (map fst rs)" and "k < length rs"
  shows "length (takeWhile (\<lambda>r. fst r \<noteq> fst (rs ! k)) rs) = k"
  using assms
proof (induction rs arbitrary: k)
  case Nil
  then show ?case by simp
next
  case (Cons r rs)
  show ?case
  proof (cases k)
    case 0
    then show ?thesis by simp
  next
    case (Suc j)
    then have "fst r \<noteq> fst (rs ! j)" using Cons.prems by auto
    then show ?thesis using Cons Suc by simp
  qed
qed

lemma handleFrames_res:
  assumes "\<forall>rf \<in> set rfs. frame_type (snd rf) = Some ''res'' \<and> field (snd rf) ''id'' = Some (JStr (fst rf))"
    and "distinct (map fst rfs)"
    and "\<forall>rf \<in> set rfs. map_of (pendingRpc s) (fst rf) = Some (p (fst rf))"
  shows "\<exists>s'. handleFrames (map snd rfs) s = Inr s' \<and>
           effects s' = effects s @ map (\<lambda>rf. RpcResolve (call (p (fst rf))) (snd rf)) rfs \<and>
           (\<forall>k. map_of (pendingRpc s') k =
                (if k \<in> fst ` set rfs then None else map_of (pendingRpc s) k))"
  using assms
proof (induction rfs arbitrary: s)
  case Nil
  then show ?case by simp
next
  case (Cons rf rfs)
  obtain rid f where rf: "rf = (rid, f)" by (cases rf) auto
  define s1 where "s1 = s\<lparr>pendingRpc := AList.delete rid (pendingRpc s),
            timers := (case timer (p rid) of None \<Rightarrow> timers s | Some t \<Rightarrow> AList.delete t (timers s)),
            effects := effects s @ [RpcResolve (call (p rid)) f]\<rparr>"
  have step: "handleFrame f s = Inr s1"
    unfolding s1_def using Cons.prems(1,3) by (intro handleFrame_res_pending) (auto simp: rf)
  have pend1: "map_of (pendingRpc s1) k = (if k = rid then None else map_of (pendingRpc s) k)" for k
    by (simp add: s1_def delete_conv')
  have "\<forall>rf \<in> set rfs. map_of (pendingRpc s1) (fst rf) = Some (p (fst rf))"
    using Cons.prems(2,3) by (auto simp: pend1 rf)
  with Cons.IH [of s1] Cons.prems(1,2)
  obtain s' where s': "handleFrames (map snd rfs) s1 = Inr s'"
      "effects s' = effects s1 @ map (\<lambda>rf. RpcResolve (call (p (fst rf))) (snd rf)) rfs"
      "\<forall>k. map_of (pendingRpc s') k =
                (if k \<in> fst ` set rfs then None else map_of (pendingRpc s1) k)"
    by auto
  have "handleFrames (map snd (rf # rfs)) s = Inr s'"
    using step s'(1) by (simp add: rf)
  moreover have "effects s' = effects s @ map (\<lambda>rf. RpcResolve (call (p (fst rf))) (snd rf)) (rf # rfs)"
    using s'(2) by (simp add: s1_def rf)
  moreover have "\<forall>k. map_of (pendingRpc s') k =
                (if k \<in> fst ` set (rf # rfs) then None else map_of (pendingRpc s) k)"
    using s'(3) by (auto simp: pend1 rf)
  ultimately show ?case by blast
qed


lemma requests_pending_index:
  assumes "distinct (map fst rs)" and "rid \<in> fst ` set rs"
  shows "map_of (pendingRpc (requests rs s)) rid =
           Some \<lparr>call = handles s + length (takeWhile (\<lambda>r. fst r \<noteq> rid) rs),
                  timer = Some (handles s + length (takeWhile (\<lambda>r. fst r \<noteq> rid) rs))\<rparr>"
proof -
  from assms(2) obtain k where k: "k < length rs" "rid = fst (rs ! k)"
    by (auto simp: in_set_conv_nth)
  show ?thesis
    using requests_pending [OF assms(1) k(1), of s] index_takeWhile [OF assms(1) k(1)]
    by (simp add: k(2))
qed

lemma request_result_failed:
  assumes "field f ''ok'' = Some (JBool False)" and "field f ''error'' = Some e"
    and "field e ''message'' = Some (JStr m)"
  shows "request_result f = Inl (Error m)"
proof -
  have "e \<noteq> JNull" and "f \<noteq> JNull" using assms(1,3) by auto
  then show ?thesis using assms by (simp add: request_result_def)
qed

text \<open>
  C6. A \<open>res\<close> frame resolves the call registered under its id, clears that call's timer
  and removes the entry, leaving every other entry as it was; with no entry under its id
  it changes nothing, so a second \<open>res\<close> for the same id is dropped. A \<open>res\<close> whose \<open>ok\<close> is
  false makes \<open>request\<close> reject with the message the frame carries. After calls with
  distinct ids, replies to some of them, in any order, resolve each call with the reply
  that carries its id: the k-th call (numbered from the client's next handle) with the
  reply to the k-th id.
\<close>

theorem rpc_correlation:
  "(frame_type f = Some ''res'' \<and> field f ''id'' = Some (JStr rid) \<longrightarrow>
      (\<forall>p. map_of (pendingRpc s) rid = Some p \<longrightarrow>
         handleFrame f s =
           Inr (s\<lparr>pendingRpc := AList.delete rid (pendingRpc s),
                  timers := (case timer p of None \<Rightarrow> timers s
                             | Some t \<Rightarrow> AList.delete t (timers s)),
                  effects := effects s @ [RpcResolve (call p) f]\<rparr>)) \<and>
      (map_of (pendingRpc s) rid = None \<longrightarrow> handleFrame f s = Inr s) \<and>
      (\<forall>s'. handleFrame f s = Inr s' \<longrightarrow>
         handleFrame f s' = Inr s' \<and>
         (\<forall>k. k \<noteq> rid \<longrightarrow> map_of (pendingRpc s') k = map_of (pendingRpc s) k))) \<and>
   (field f ''ok'' = Some (JBool False) \<and> field f ''error'' = Some e \<and>
    field e ''message'' = Some (JStr m) \<longrightarrow> request_result f = Inl (Error m)) \<and>
   (distinct (map fst rs) \<and> distinct (map fst rfs) \<and> fst ` set rfs \<subseteq> fst ` set rs \<and>
    (\<forall>rf \<in> set rfs. frame_type (snd rf) = Some ''res'' \<and>
                    field (snd rf) ''id'' = Some (JStr (fst rf))) \<longrightarrow>
      (\<exists>s'. handleFrames (map snd rfs) (requests rs s) = Inr s' \<and>
            effects s' = effects (requests rs s) @
              map (\<lambda>rf. RpcResolve (handles s + length (takeWhile (\<lambda>r. fst r \<noteq> fst rf) rs))
                          (snd rf)) rfs \<and>
            (\<forall>k. map_of (pendingRpc s') k =
                 (if k \<in> fst ` set rfs then None
                  else map_of (pendingRpc (requests rs s)) k))))"
proof -
  have single: "(\<forall>p. map_of (pendingRpc s) rid = Some p \<longrightarrow>
         handleFrame f s =
           Inr (s\<lparr>pendingRpc := AList.delete rid (pendingRpc s),
                  timers := (case timer p of None \<Rightarrow> timers s
                             | Some t \<Rightarrow> AList.delete t (timers s)),
                  effects := effects s @ [RpcResolve (call p) f]\<rparr>)) \<and>
      (map_of (pendingRpc s) rid = None \<longrightarrow> handleFrame f s = Inr s) \<and>
      (\<forall>s'. handleFrame f s = Inr s' \<longrightarrow>
         handleFrame f s' = Inr s' \<and>
         (\<forall>k. k \<noteq> rid \<longrightarrow> map_of (pendingRpc s') k = map_of (pendingRpc s) k))"
    if res: "frame_type f = Some ''res''" "field f ''id'' = Some (JStr rid)"
  proof (cases "map_of (pendingRpc s) rid")
    case None
    then show ?thesis using handleFrame_res_unknown [OF res None] by simp
  next
    case (Some p)
    define s1 where "s1 = s\<lparr>pendingRpc := AList.delete rid (pendingRpc s),
                  timers := (case timer p of None \<Rightarrow> timers s
                             | Some t \<Rightarrow> AList.delete t (timers s)),
                  effects := effects s @ [RpcResolve (call p) f]\<rparr>"
    have step: "handleFrame f s = Inr s1"
      unfolding s1_def using res Some by (rule handleFrame_res_pending)
    have gone: "map_of (pendingRpc s1) rid = None"
      by (simp add: s1_def delete_conv')
    have again: "handleFrame f s1 = Inr s1"
      using res gone by (rule handleFrame_res_unknown)
    have others: "k \<noteq> rid \<Longrightarrow> map_of (pendingRpc s1) k = map_of (pendingRpc s) k" for k
      by (simp add: s1_def delete_conv')
    show ?thesis
      using Some step again others by (simp add: s1_def [symmetric])
  qed
  have many: "\<exists>s'. handleFrames (map snd rfs) (requests rs s) = Inr s' \<and>
            effects s' = effects (requests rs s) @
              map (\<lambda>rf. RpcResolve (handles s + length (takeWhile (\<lambda>r. fst r \<noteq> fst rf) rs))
                          (snd rf)) rfs \<and>
            (\<forall>k. map_of (pendingRpc s') k =
                 (if k \<in> fst ` set rfs then None
                  else map_of (pendingRpc (requests rs s)) k))"
    if d: "distinct (map fst rs)" "distinct (map fst rfs)" and sub: "fst ` set rfs \<subseteq> fst ` set rs"
      and res: "\<forall>rf \<in> set rfs. frame_type (snd rf) = Some ''res'' \<and>
                    field (snd rf) ''id'' = Some (JStr (fst rf))"
  proof -
    define p where "p = (\<lambda>rid. \<lparr>call = handles s + length (takeWhile (\<lambda>r. fst r \<noteq> rid) rs),
                  timer = Some (handles s + length (takeWhile (\<lambda>r. fst r \<noteq> rid) rs))\<rparr>)"
    have "\<forall>rf \<in> set rfs. map_of (pendingRpc (requests rs s)) (fst rf) = Some (p (fst rf))"
      using sub requests_pending_index [OF d(1), of _ s] by (auto simp: p_def)
    from handleFrames_res [OF res d(2) this]
    show ?thesis by (simp add: p_def)
  qed
  show ?thesis
    using single many request_result_failed [of f e m] by blast
qed

theorem rpc_correlation_witness:
  "(\<exists>s'. handleFrames [res_ok ''id-2'', res_ok ''id-1'']
          (requests [(''id-1'', ''skills.bins'', JNull, 5000), (''id-2'', ''ping'', JNull, 5000)]
             (connect (new_BridgeClient node_options))) = Inr s' \<and>
        effects s' =
          effects (requests [(''id-1'', ''skills.bins'', JNull, 5000), (''id-2'', ''ping'', JNull, 5000)]
             (connect (new_BridgeClient node_options))) @
          [RpcResolve 1 (res_ok ''id-2''), RpcResolve 0 (res_ok ''id-1'')] \<and>
        pendingRpc s' = []) \<and>
   handleFrame
     (JObj [(''type'', JStr ''res''), (''id'', JStr ''id-9''), (''ok'', JBool False),
            (''error'', JObj [(''message'', JStr ''no such method'')])])
     (connect (new_BridgeClient node_options)) = Inr (connect (new_BridgeClient node_options)) \<and>
   request_result
     (JObj [(''type'', JStr ''res''), (''id'', JStr ''id-9''), (''ok'', JBool False),
            (''error'', JObj [(''message'', JStr ''no such method'')])]) =
     Inl (Error ''no such method'')"
proof -
  note inst = rpc_correlation
    [where rs = "[(''id-1'', ''skills.bins'', JNull, 5000), (''id-2'', ''ping'', JNull, 5000)]"
       and rfs = "[(''id-2'', res_ok ''id-2''), (''id-1'', res_ok ''id-1'')]"
       and s = "connect (new_BridgeClient node_options)"
       and f = "JObj [(''type'', JStr ''res''), (''id'', JStr ''id-9''), (''ok'', JBool False),
                      (''error'', JObj [(''message'', JStr ''no such method'')])]"
       and rid = "''id-9''" and e = "JObj [(''message'', JStr ''no such method'')]"
       and m = "''no such method''"]
  from inst
  obtain s' where s': "handleFrames [res_ok ''id-2'', res_ok ''id-1'']
          (requests [(''id-1'', ''skills.bins'', JNull, 5000), (''id-2'', ''ping'', JNull, 5000)]
             (connect (new_BridgeClient node_options))) = Inr s'"
     "effects s' =
          effects (requests [(''id-1'', ''skills.bins'', JNull, 5000), (''id-2'', ''ping'', JNull, 5000)]
             (connect (new_BridgeClient node_options))) @
          [RpcResolve 1 (res_ok ''id-2''), RpcResolve 0 (res_ok ''id-1'')]"
     "\<forall>k. map_of (pendingRpc s') k =
        (if k \<in> {''id-2'', ''id-1''} then None
         else map_of (pendingRpc (requests [(''id-1'', ''skills.bins'', JNull, 5000), (''id-2'', ''ping'', JNull, 5000)]
             (connect (new_BridgeClient node_options)))) k)"
    by (auto simp: res_ok_def frame_type_def connect_eq new_BridgeClient_def)
  have "map_of (pendingRpc s') k = None" for k
    using s'(3) by (simp add: request_eq connect_eq new_BridgeClient_def)
  then have "pendingRpc s' = []"
    by (metis map_of_eq_None_iff list.set_intros(1) list.exhaust prod.collapse fst_conv image_eqI)
  with s'(1,2) have many: "\<exists>s'. handleFrames [res_ok ''id-2'', res_ok ''id-1'']
          (requests [(''id-1'', ''skills.bins'', JNull, 5000), (''id-2'', ''ping'', JNull, 5000)]
             (connect (new_BridgeClient node_options))) = Inr s' \<and>
        effects s' =
          effects (requests [(''id-1'', ''skills.bins'', JNull, 5000), (''id-2'', ''ping'', JNull, 5000)]
             (connect (new_BridgeClient node_options))) @
          [RpcResolve 1 (res_ok ''id-2''), RpcResolve 0 (res_ok ''id-1'')] \<and>
        pendingRpc s' = []"
    by blast
  have unknown: "handleFrame
     (JObj [(''type'', JStr ''res''), (''id'', JStr ''id-9''), (''ok'', JBool False),
            (''error'', JObj [(''message'', JStr ''no such method'')])])
     (connect (new_BridgeClient node_options)) = Inr (connect (new_BridgeClient node_options))"
    using inst by (simp add: frame_type_def connect_eq new_BridgeClient_def)
  have failed: "request_result
     (JObj [(''type'', JStr ''res''), (''id'', JStr ''id-9''), (''ok'', JBool False),
            (''error'', JObj [(''message'', JStr ''no such method'')])]) =
     Inl (Error ''no such method'')"
    using inst by simp
  show ?thesis using many unknown failed by blast
qed


subsection \<open>Lines that are not frames\<close>


lemma indexOf_line: "CHR 0x0A \<notin> set l \<Longrightarrow> indexOf (l @ CHR 0x0A # r) (CHR 0x0A) = Some (length l)"
proof -
  assume "CHR 0x0A \<notin> set l"
  then have "takeWhile (\<lambda>x. x \<noteq> CHR 0x0A) (l @ CHR 0x0A # r) = l"
    by (induction l) auto
  then show ?thesis by (simp add: indexOf_def)
qed

lemma flush_line:
  assumes "CHR 0x0A \<notin> set l" and "buffer s = l @ CHR 0x0A # r"
  shows "flush s =
     (if trim l = [] then flush (s\<lparr>buffer := r\<rparr>)
      else
        (case JSON_parse (trim l) of
           None \<Rightarrow> flush (s\<lparr>buffer := r\<rparr>)
         | Some frame \<Rightarrow>
             (case handleFrame frame (s\<lparr>buffer := r\<rparr>) of
                Inl e \<Rightarrow> Inl e
              | Inr s2 \<Rightarrow> flush s2)))"
  using assms by (simp add: flush.simps [of s] indexOf_line Let_def)

text \<open>A line that is blank, or that does not parse, is skipped.\<close>

lemma flush_skips_line:
  assumes "CHR 0x0A \<notin> set l" and "buffer s = l @ CHR 0x0A # r"
    and "trim l = [] \<or> JSON_parse (trim l) = None"
  shows "flush s = flush (s\<lparr>buffer := r\<rparr>)"
  using assms(3) flush_line [OF assms(1,2)] by auto

text \<open>
  C4. A received line that reads \<open>null\<close> parses, to \<open>null\<close>, and \<open>handleFrame\<close> throws a
  TypeError on reading its \<open>type\<close>; so does the line of an object whose \<open>type\<close> is an
  object with a member \<open>toString\<close>, which \<open>String\<close> cannot convert. The exception leaves
  \<open>flush\<close> and the \<open>data\<close> listener, and the lines after it stay in the buffer. Neither
  line is discarded in silence.
\<close>

theorem null_line_throws:
  "on_data (''null'' @ CHR 0x0A # rest) (s\<lparr>buffer := []\<rparr>) = Inl TypeError \<and>
   on_data (wire (JObj [(''type'', JObj [(''toString'', JNum 1)])]) @ rest) (s\<lparr>buffer := []\<rparr>) =
     Inl TypeError"
proof -
  have tr: "trim ''null'' = ''null''" by code_simp
  have parse: "JSON_parse ''null'' = Some JNull" by code_simp
  have "flush (s\<lparr>buffer := ''null'' @ CHR 0x0A # rest\<rparr>) = Inl TypeError"
    by (subst flush_line [where l = "''null''" and r = rest])
       (simp_all add: tr parse handleFrame_def)
  then have one: "on_data (''null'' @ CHR 0x0A # rest) (s\<lparr>buffer := []\<rparr>) = Inl TypeError"
    by (simp add: on_data_def)
  define l where "l = JSON_stringify (JObj [(''type'', JObj [(''toString'', JNum 1)])])"
  have nl: "CHR 0x0A \<notin> set l" unfolding l_def by code_simp
  have tr': "trim l = l" unfolding l_def by code_simp
  have ne: "l \<noteq> []" unfolding l_def by code_simp
  have parse': "JSON_parse l = Some (JObj [(''type'', JObj [(''toString'', JNum 1)])])"
    unfolding l_def by code_simp
  have "flush (s\<lparr>buffer := l @ CHR 0x0A # rest\<rparr>) = Inl TypeError"
    by (subst flush_line [where l = l and r = rest])
       (simp_all add: nl tr' ne parse' handleFrame_def frame_type_def)
  then have two: "on_data (wire (JObj [(''type'', JObj [(''toString'', JNum 1)])]) @ rest)
      (s\<lparr>buffer := []\<rparr>) = Inl TypeError"
    by (simp add: on_data_def wire_def l_def del: JSON_stringify.simps)
  show ?thesis using one two by simp
qed

text \<open>A value other than \<open>null\<close> whose type the client does not know is dropped, and one
  whose members all convert to strings is handled without an exception.\<close>

lemma handleFrame_unknown_type:
  assumes "frame \<noteq> JNull" and "frame_type frame = Some ty"
    and "ty \<notin> {''hello-ok'', ''pair-ok'', ''error'', ''ping'', ''event'', ''res'', ''invoke''}"
  shows "handleFrame frame s = Inr s"
  using assms by (simp add: handleFrame_def)

lemma ToString_nullish:
  assumes "\<forall>v. field frame k = Some v \<longrightarrow> ToString v \<noteq> None"
  shows "\<exists>t. ToString (nullish (field frame k) (JStr d)) = Some t"
proof (cases "field frame k")
  case None
  then show ?thesis by simp
next
  case (Some v)
  then show ?thesis using assms by (cases v) auto
qed

lemma handleFrame_not_null:
  assumes "frame \<noteq> JNull" and "\<forall>k v. field frame k = Some v \<longrightarrow> ToString v \<noteq> None"
  shows "\<exists>s'. handleFrame frame s = Inr s'"
proof -
  obtain ty where ty: "frame_type frame = Some ty"
    using ToString_nullish [of frame "''type''" "[]"] assms(2) by (auto simp: frame_type_def)
  obtain tok where tok: "ToString (nullish (field frame ''token'') (JStr [])) = Some tok"
    using ToString_nullish [of frame "''token''" "[]"] assms(2) by auto
  obtain code where code: "ToString (nullish (field frame ''code'') (JStr [])) = Some code"
    using ToString_nullish [of frame "''code''" "[]"] assms(2) by auto
  obtain msg where msg: "ToString (nullish (field frame ''message'') (JStr ''bridge error'')) = Some msg"
    using ToString_nullish [of frame "''message''" "''bridge error''"] assms(2) by auto
  obtain i where i: "ToString (nullish (field frame ''id'') (JStr [])) = Some i"
    using ToString_nullish [of frame "''id''" "[]"] assms(2) by auto
  show ?thesis
    using assms(1)
    by (simp add: handleFrame_def ty tok code msg i Let_def split: option.split json.split)
qed

subsection \<open>The codec: numbers\<close>















subsection \<open>The codec: strings\<close>





subsection \<open>The codec: values\<close>

lemma skip_ws_first_ok: "first_ok s \<Longrightarrow> skip_ws s = s"
  by (cases s) (simp_all add: first_ok_def skip_ws_def)














subsection \<open>The codec: lines\<close>




















end
